theory Spec2Isabelle
  imports Main "HOL-Library.AList"
begin

chapter \<open>The program\<close>

section \<open>Articles and the aggregate set (types.ts, App.tsx)\<close>

text \<open>
  Strings of the program are modelled as \<^typ>\<open>string\<close>; one character stands for one
  code unit of the source string. The character-class operations (case mapping,
  whitespace, digits) are the ASCII ones, so the model is exact on ASCII text.
\<close>

datatype language = De | En

text \<open>The interface \<open>Article\<close>; \<open>needsScraping\<close> is optional in the source.\<close>

record article =
  id' :: string
  title :: string
  source :: string
  publicationDate :: string
  summary :: string
  link :: string
  imageUrl :: string
  needsScraping :: "bool option"
  language :: language

text \<open>The interface \<open>CachedNews\<close>, written to local storage under \<open>CACHE_KEY\<close>.\<close>

record cachedNews =
  cached_articles :: "article list"
  timestamp :: int

text \<open>
  \<open>new Date(s).getTime()\<close> is a function of the platform: an integral number of
  milliseconds, or \<open>NaN\<close>, which is \<open>None\<close> here.
\<close>

type_synonym getTime = "string \<Rightarrow> int option"

text \<open>The part of the component state that \<open>updateArticlesAndCache\<close> writes.\<close>

record app_state =
  articles :: "article list"
  favorites :: "string list"
  allSources :: "(string \<times> language) list"
  localStorage :: "cachedNews option"

definition sevenDays :: int where
  "sevenDays = 7 * 24 * 60 * 60 * 1000"

text \<open>
  \<open>newArticles.forEach(a => articleMap.set(a.id, a))\<close>: a \<open>Map\<close> keeps its keys in the
  order of their first insertion, and a later \<open>set\<close> of a key replaces the value in place.
\<close>

definition articleMap :: "article list \<Rightarrow> (string \<times> article) list" where
  "articleMap newArticles = foldl (\<lambda>m a. AList.update (id' a) a m) [] newArticles"

definition deduplicatedArticles :: "article list \<Rightarrow> article list" where
  "deduplicatedArticles newArticles = map snd (articleMap newArticles)"

text \<open>\<open>new Date(article.publicationDate).getTime() >= sevenDaysAgo\<close>; false for \<open>NaN\<close>.\<close>

definition notOlderThan :: "getTime \<Rightarrow> int \<Rightarrow> article \<Rightarrow> bool" where
  "notOlderThan getTime sevenDaysAgo a =
     (case getTime (publicationDate a) of None \<Rightarrow> False | Some t \<Rightarrow> t \<ge> sevenDaysAgo)"

text \<open>
  The comparator \<open>(a, b) => time(b) - time(a)\<close> sorts by descending time, and
  \<open>Array.prototype.sort\<close> is stable: that is the stable ascending sort on the negated
  time. The sort runs after the filter, where every time is a number; the value of the
  key at \<open>NaN\<close> is never compared.
\<close>

definition descendingKey :: "getTime \<Rightarrow> article \<Rightarrow> int" where
  "descendingKey getTime a = (case getTime (publicationDate a) of None \<Rightarrow> 0 | Some t \<Rightarrow> - t)"

definition finalArticles :: "getTime \<Rightarrow> int \<Rightarrow> article list \<Rightarrow> article list" where
  "finalArticles getTime now newArticles =
     (let sevenDaysAgo = now - sevenDays
      in sort_key (descendingKey getTime)
           (filter (notOlderThan getTime sevenDaysAgo) (deduplicatedArticles newArticles)))"

text \<open>
  \<open>sourceMap\<close>: the first article of each source gives the source's language
  (\<open>if (!sourceMap.has(article.source)) sourceMap.set(...)\<close>).
\<close>

definition uniqueSources :: "article list \<Rightarrow> (string \<times> language) list" where
  "uniqueSources as =
     foldl (\<lambda>m a. if source a \<in> fst ` set m then m else m @ [(source a, language a)]) [] as"

text \<open>
  \<open>updateArticlesAndCache\<close>, with the two readings of \<open>Date.now()\<close> as one instant \<open>now\<close>.
  A failing write to local storage (quota) is not modelled.
\<close>

definition updateArticlesAndCache ::
  "getTime \<Rightarrow> int \<Rightarrow> article list \<Rightarrow> app_state \<Rightarrow> app_state" where
  "updateArticlesAndCache getTime now newArticles s =
     (let final = finalArticles getTime now newArticles;
          availableArticleIds = set (map id' final)
      in s\<lparr> localStorage := Some \<lparr> cached_articles = final, timestamp = now \<rparr>,
            favorites := filter (\<lambda>favId. favId \<in> availableArticleIds) (favorites s),
            articles := final,
            allSources := uniqueSources final \<rparr>)"

text \<open>The time of an article that has one (used to state the order of the result).\<close>

definition timeOf :: "getTime \<Rightarrow> article \<Rightarrow> int option" where
  "timeOf getTime a = getTime (publicationDate a)"

subsection \<open>A concrete aggregate, for evaluating the merge\<close>

text \<open>
  A platform clock on three ISO dates, and four articles: \<open>g1\<close> occurs twice, \<open>g3\<close> is
  nine days older than \<open>exampleNow\<close> (2025-10-29T10:40:00Z).
\<close>

definition exampleTime :: getTime where
  "exampleTime s =
     (if s = ''2025-10-29T10:40:00.000Z'' then Some 1761734400000
      else if s = ''2025-10-28T08:00:00.000Z'' then Some 1761638400000
      else if s = ''2025-10-20T08:00:00.000Z'' then Some 1760947200000
      else None)"

definition exampleNow :: int where
  "exampleNow = 1761734400000"

definition exampleArticle :: "string \<Rightarrow> string \<Rightarrow> string \<Rightarrow> article" where
  "exampleArticle i t d =
     \<lparr> id' = i, title = t, source = ''GameStar'', publicationDate = d, summary = '''',
       link = ''https://www.gamestar.de/'' @ i, imageUrl = ''https://www.gamestar.de/i.jpg'',
       needsScraping = Some False, language = De \<rparr>"

definition exampleArticles :: "article list" where
  "exampleArticles =
     [exampleArticle ''g1'' ''first'' ''2025-10-28T08:00:00.000Z'',
      exampleArticle ''g2'' ''second'' ''2025-10-29T10:40:00.000Z'',
      exampleArticle ''g3'' ''old'' ''2025-10-20T08:00:00.000Z'',
      exampleArticle ''g1'' ''first, updated'' ''2025-10-28T08:00:00.000Z'']"

definition exampleState :: app_state where
  "exampleState = \<lparr> articles = [], favorites = [''g1'', ''g3''], allSources = [],
                    localStorage = None \<rparr>"

section \<open>String operations of the platform\<close>

text \<open>\<open>s.startsWith(p)\<close> and \<open>s.includes(p)\<close>.\<close>

fun startsWith :: "string \<Rightarrow> string \<Rightarrow> bool" where
  "startsWith s [] = True"
| "startsWith [] (p # ps) = False"
| "startsWith (c # cs) (p # ps) = (c = p \<and> startsWith cs ps)"

fun str_includes :: "string \<Rightarrow> string \<Rightarrow> bool" where
  "str_includes [] p = (p = [])"
| "str_includes (c # cs) p = (startsWith (c # cs) p \<or> str_includes cs p)"

text \<open>Character classes: white space (as \<open>trim\<close> and \<open>parseInt\<close> skip it), digits, letters.\<close>

definition isWhiteSpace :: "char \<Rightarrow> bool" where
  "isWhiteSpace c = (c \<in> set [CHR '' '', CHR 0x09, CHR 0x0A, CHR 0x0B, CHR 0x0C, CHR 0x0D])"

definition isDigit :: "char \<Rightarrow> bool" where
  "isDigit c = (c \<in> set ''0123456789'')"

definition upperLetters :: string where
  "upperLetters = ''ABCDEFGHIJKLMNOPQRSTUVWXYZ''"

definition lowerLetters :: string where
  "lowerLetters = ''abcdefghijklmnopqrstuvwxyz''"

definition lowerChar :: "char \<Rightarrow> char" where
  "lowerChar c = (case map_of (zip upperLetters lowerLetters) c of None \<Rightarrow> c | Some l \<Rightarrow> l)"

definition upperChar :: "char \<Rightarrow> char" where
  "upperChar c = (case map_of (zip lowerLetters upperLetters) c of None \<Rightarrow> c | Some u \<Rightarrow> u)"

definition toLowerCase :: "string \<Rightarrow> string" where
  "toLowerCase s = map lowerChar s"

definition toUpperCase :: "string \<Rightarrow> string" where
  "toUpperCase s = map upperChar s"

definition trim :: "string \<Rightarrow> string" where
  "trim s = rev (dropWhile isWhiteSpace (rev (dropWhile isWhiteSpace s)))"

text \<open>\<open>s.substring(0, n)\<close> for \<open>n \<ge> 0\<close>, and \<open>s.lastIndexOf(c)\<close> (\<open>-1\<close> when absent).\<close>

definition substring0 :: "string \<Rightarrow> nat \<Rightarrow> string" where
  "substring0 s n = take n s"

definition lastIndexOf :: "string \<Rightarrow> char \<Rightarrow> int" where
  "lastIndexOf s c =
     (if c \<in> set s then int (length s) - 1 - int (length (takeWhile (\<lambda>x. x \<noteq> c) (rev s)))
      else - 1)"

text \<open>
  \<open>s.split(sep)\<close>: the pieces between the occurrences of \<open>sep\<close>, found from the left
  without overlap; the empty separator splits into single code units.
\<close>

fun splitAt :: "string \<Rightarrow> string \<Rightarrow> string \<Rightarrow> string list" where
  "splitAt sep cur [] = [rev cur]"
| "splitAt sep cur (c # cs) =
     (if sep \<noteq> [] \<and> startsWith (c # cs) sep
      then rev cur # splitAt sep [] (drop (length sep - 1) cs)
      else splitAt sep (c # cur) cs)"

definition split :: "string \<Rightarrow> string \<Rightarrow> string list" where
  "split s sep = (if sep = [] then map (\<lambda>c. [c]) s else splitAt sep [] s)"

fun join :: "string list \<Rightarrow> string \<Rightarrow> string" where
  "join [] sep = []"
| "join [p] sep = p"
| "join (p # q # ps) sep = p @ sep @ join (q # ps) sep"

text \<open>
  \<open>parseInt(s, 10)\<close>: leading white space, an optional sign, then the longest run of
  digits; \<open>NaN\<close> (\<open>None\<close>) when there is no digit. The result of the source is the double
  nearest to this integer, which compares with 1 as the integer does.
\<close>

definition digitValue :: "char \<Rightarrow> int" where
  "digitValue c = int (length (takeWhile (\<lambda>d. d \<noteq> c) ''0123456789''))"

definition digitsValue :: "string \<Rightarrow> int" where
  "digitsValue ds = foldl (\<lambda>n c. 10 * n + digitValue c) 0 ds"

definition parseInt :: "string \<Rightarrow> int option" where
  "parseInt s =
     (let t = dropWhile isWhiteSpace s;
          negative = startsWith t ''-'';
          u = (if startsWith t ''-'' \<or> startsWith t ''+'' then tl t else t);
          ds = takeWhile isDigit u
      in if ds = [] then None
         else Some (if negative then - digitsValue ds else digitsValue ds))"

text \<open>
  \<open>encodeURIComponent\<close>: letters, digits and \<open>- _ . ! ~ * ' ( )\<close> stay, every other
  code unit becomes \<open>%XX\<close>. (On a lone surrogate the source throws \<open>URIError\<close>; ASCII
  text has none.)
\<close>

definition unreserved :: "char \<Rightarrow> bool" where
  "unreserved c =
     (c \<in> set upperLetters \<or> c \<in> set lowerLetters \<or> isDigit c \<or>
      c \<in> set [CHR ''-'', CHR ''_'', CHR ''.'', CHR ''!'', CHR ''~'', CHR ''*'', CHR 0x27,
                 CHR ''('', CHR '')''])"

definition hexDigit :: "nat \<Rightarrow> char" where
  "hexDigit n = ''0123456789ABCDEF'' ! (n mod 16)"

definition percentEncode :: "char \<Rightarrow> string" where
  "percentEncode c =
     (if unreserved c then [c]
      else [CHR ''%'', hexDigit (of_char c div 16), hexDigit (of_char c)])"

definition encodeURIComponent :: "string \<Rightarrow> string" where
  "encodeURIComponent s = concat (map percentEncode s)"

text \<open>The truth value of an optional string: \<open>undefined\<close>, \<open>null\<close> and \<open>''\<close> are falsy.\<close>

definition truthy :: "string option \<Rightarrow> bool" where
  "truthy v = (case v of None \<Rightarrow> False | Some s \<Rightarrow> s \<noteq> [])"

text \<open>\<open>a || b\<close> on optional strings, and \<open>a || ''\<close> with a string default.\<close>

definition orElse :: "string option \<Rightarrow> string option \<Rightarrow> string option" where
  "orElse a b = (if truthy a then a else b)"

definition orDefault :: "string option \<Rightarrow> string \<Rightarrow> string" where
  "orDefault a d = (case a of None \<Rightarrow> d | Some s \<Rightarrow> if s = [] then d else s)"

section \<open>Source Name Normalizer (newsService.ts, cleanSourceName)\<close>

text \<open>\<open>URL_TO_NAME_MAP\<close>, in the order of its keys, which is the order \<open>for ... in\<close> visits.\<close>

definition URL_TO_NAME_MAP :: "(string \<times> string) list" where
  "URL_TO_NAME_MAP =
     [(''play3.de'', ''Play3''),
      (''gamestar.de'', ''GameStar''),
      (''buffed.de'', ''Buffed''),
      (''xboxdynasty.de'', ''Xbox Dynasty''),
      (''playstationinfo.de'', ''PlayStation Info''),
      (''videogameszone.de'', ''Video Games Zone''),
      (''computerbild.de'', ''Computer Bild''),
      (''gameswirtschaft.de'', ''GamesWirtschaft''),
      (''gamepro.de'', ''GamePro''),
      (''gamezone.de'', ''GameZone''),
      (''playfront.de'', ''PlayFront''),
      (''gamersglobal.de'', ''GamersGlobal''),
      (''mein-mmo.de'', ''Mein-MMO''),
      (''eurogamer.de'', ''Eurogamer''),
      (''pcgames.de'', ''PC Games''),
      (''pcgameshardware.de'', ''PC Games Hardware''),
      (''ign.com'', ''IGN''),
      (''4p.de'', ''4P''),
      (''pixelcritics.com'', ''PixelCritics''),
      (''gameswelt.ch'', ''GamesWelt''),
      (''jpgames.de'', ''JPGames''),
      (''gamesradar.com'', ''GamesRadar+''),
      (''gamespot.com'', ''GameSpot''),
      (''gameinformer.com'', ''Game Informer''),
      (''rockpapershotgun.com'', ''Rock Paper Shotgun''),
      (''polygon.com'', ''Polygon''),
      (''kotaku.com'', ''Kotaku''),
      (''pcgamer.com'', ''PC Gamer''),
      (''destructoid.com'', ''Destructoid''),
      (''gematsu.com'', ''Gematsu''),
      (''golem.de'', ''Golem''),
      (''giga.de'', ''GIGA Games''),
      (''heise.de'', ''Heise Online'')]"

text \<open>The loop over the table: the value of the first key that the feed URL includes.\<close>

fun lookupByUrl :: "(string \<times> string) list \<Rightarrow> string \<Rightarrow> string option" where
  "lookupByUrl [] feedUrl = None"
| "lookupByUrl ((key, name) # rest) feedUrl =
     (if str_includes feedUrl key then Some name else lookupByUrl rest feedUrl)"

definition junkPhrases :: "string list" where
  "junkPhrases =
     [''latest articles feed'', ''mashup'', ''all content'', ''alles'', ''news'', ''feed'',
      ''rss'', ''uk'']"

text \<open>
  \<open>name.replace(junkRegex, '')\<close> with the flags \<open>gi\<close>: from the left, at each position the
  first phrase of the alternation that matches there without regard to case is removed
  and the scan goes on behind it.
\<close>

fun removeJunk :: "string list \<Rightarrow> string \<Rightarrow> string" where
  "removeJunk phrases [] = []"
| "removeJunk phrases (c # cs) =
     (case find (\<lambda>p. p \<noteq> [] \<and> startsWith (toLowerCase (c # cs)) (toLowerCase p)) phrases of
        Some p \<Rightarrow> removeJunk phrases (drop (length p - 1) cs)
      | None \<Rightarrow> c # removeJunk phrases cs)"

definition separators :: "string list" where
  "separators = ['' - '', '' | '', '': '']"

text \<open>
  The loop over the separators: the first separator that occurs splits the name, and the
  pieces are trimmed and the empty ones dropped.
\<close>

definition splitParts :: "string \<Rightarrow> string list" where
  "splitParts cleanedName =
     (case find (\<lambda>sep. str_includes cleanedName sep) separators of
        None \<Rightarrow> [cleanedName]
      | Some sep \<Rightarrow> filter (\<lambda>p. length p > 0) (map trim (split cleanedName sep)))"

text \<open>
  \<open>parts.sort((a, b) => a.length - b.length)[0] || cleanedName\<close>: the first of the
  shortest parts, or the name itself when there is no part or the part is empty.
\<close>

definition shortestPart :: "string list \<Rightarrow> string \<Rightarrow> string" where
  "shortestPart parts cleanedName =
     (case sort_key length parts of
        [] \<Rightarrow> cleanedName
      | p # _ \<Rightarrow> if p = [] then cleanedName else p)"

definition capitalize :: "string \<Rightarrow> string" where
  "capitalize word = toUpperCase (take 1 word) @ toLowerCase (drop 1 word)"

definition cleanSourceName :: "string \<Rightarrow> string \<Rightarrow> string" where
  "cleanSourceName name feedUrl =
     (if name = [] then ''Unknown Source''
      else case lookupByUrl URL_TO_NAME_MAP feedUrl of
        Some canonical \<Rightarrow> canonical
      | None \<Rightarrow>
          (let cleanedName = removeJunk junkPhrases name;
               cleanedName = shortestPart (splitParts cleanedName) cleanedName;
               cleanedName = trim cleanedName
           in join (map capitalize (filter (\<lambda>word. length word > 0) (split cleanedName '' '')))
                '' ''))"

section \<open>Documents, and what the program takes from the platform\<close>

text \<open>
  A node of a parsed document: an element with its qualified name (\<open>nodeName\<close>), its local
  name, its attributes and its children, or a text node (CDATA included). Type selectors
  compare local names; \<open>getAttribute\<close> reads the first attribute of a name.
\<close>

datatype node =
  Element string string "(string \<times> string) list" "node list"
| Text string

fun textContent :: "node \<Rightarrow> string" where
  "textContent (Text s) = s"
| "textContent (Element qname lname attrs children) = concat (map textContent children)"

text \<open>The proper descendants of a node, in document order.\<close>

fun descendants :: "node \<Rightarrow> node list" where
  "descendants (Text s) = []"
| "descendants (Element qname lname attrs children) =
     concat (map (\<lambda>c. c # descendants c) children)"

fun nodeName :: "node \<Rightarrow> string" where
  "nodeName (Text s) = ''#text''"
| "nodeName (Element qname lname attrs children) = qname"

fun hasLocalName :: "string \<Rightarrow> node \<Rightarrow> bool" where
  "hasLocalName tag (Text s) = False"
| "hasLocalName tag (Element qname lname attrs children) = (lname = tag)"

fun getAttribute :: "node \<Rightarrow> string \<Rightarrow> string option" where
  "getAttribute (Text s) name = None"
| "getAttribute (Element qname lname attrs children) name = map_of attrs name"

text \<open>\<open>node.querySelectorAll(sel)\<close> and \<open>node.querySelector(sel)\<close>, the selector as a predicate.\<close>

definition querySelectorAll :: "node \<Rightarrow> (node \<Rightarrow> bool) \<Rightarrow> node list" where
  "querySelectorAll n sel = filter sel (descendants n)"

definition firstOf :: "'a list \<Rightarrow> 'a option" where
  "firstOf xs = (case xs of [] \<Rightarrow> None | x # _ \<Rightarrow> Some x)"

definition querySelector :: "node \<Rightarrow> (node \<Rightarrow> bool) \<Rightarrow> node option" where
  "querySelector n sel = firstOf (querySelectorAll n sel)"

text \<open>
  \<open>el.remove()\<close> for every element that a selector matches: the matching descendants go,
  with their subtrees.
\<close>

fun removeMatching :: "(node \<Rightarrow> bool) \<Rightarrow> node \<Rightarrow> node" where
  "removeMatching sel (Text s) = Text s"
| "removeMatching sel (Element qname lname attrs children) =
     Element qname lname attrs (map (removeMatching sel) (filter (\<lambda>c. \<not> sel c) children))"

text \<open>
  A document parsed as \<open>text/html\<close> always has a head and a body; the selectors of the
  program (\<open>img\<close>, \<open>a\<close>, \<open>script\<close>, \<open>style\<close>, \<open>meta\<close>) never match the root element.
\<close>

record htmlDocument =
  doc_head :: node
  doc_body :: node

definition documentElements :: "htmlDocument \<Rightarrow> node list" where
  "documentElements d =
     doc_head d # descendants (doc_head d) @ doc_body d # descendants (doc_body d)"

text \<open>An answer of \<open>fetch\<close>: \<open>response.ok\<close>, and \<open>response.text()\<close>, which may fail.\<close>

datatype response = Response bool "string option"

text \<open>
  The platform, as far as the program uses it:
  \<^item> \<open>parseHtml\<close> is \<open>new DOMParser().parseFromString(s, 'text/html')\<close>;
  \<^item> \<open>parseXml\<close> is \<open>parseFromString(s, 'application/xml')\<close>, as the document element
    (a document that failed to parse holds a \<open>parsererror\<close> element);
  \<^item> \<open>resolveUrl u base\<close> is \<open>new URL(u, base).href\<close>, \<open>None\<close> when it throws;
  \<^item> \<open>hostname href\<close> is \<open>new URL(href).hostname\<close>;
  \<^item> \<open>fetch url\<close> is the awaited \<open>fetch(url, ...)\<close>, \<open>None\<close> when it throws or times out;
  \<^item> \<open>toISOString s\<close> is \<open>new Date(s).toISOString()\<close>, \<open>None\<close> when it throws
    \<open>RangeError\<close> (the date is invalid).
\<close>

record platform =
  parseHtml :: "string \<Rightarrow> htmlDocument"
  parseXml :: "string \<Rightarrow> node"
  resolveUrl :: "string \<Rightarrow> string \<Rightarrow> string option"
  hostname :: "string \<Rightarrow> string"
  fetch :: "string \<Rightarrow> response option"
  toISOString :: "string \<Rightarrow> string option"

section \<open>Content Summarizer (newsService.ts, stripHtmlAndTruncate)\<close>

definition isScriptOrStyle :: "node \<Rightarrow> bool" where
  "isScriptOrStyle n = (hasLocalName ''script'' n \<or> hasLocalName ''style'' n)"

definition isReadMoreText :: "string \<Rightarrow> bool" where
  "isReadMoreText t =
     (let linkText = toLowerCase t
      in str_includes linkText ''continue reading'' \<or> str_includes linkText ''read more'')"

text \<open>
  \<open>a.closest('p')?.remove()\<close> for every anchor with a read-more text. The closest
  paragraph of an anchor is its nearest ancestor \<open>p\<close>, so a paragraph is removed exactly
  when a read-more anchor lies below it with no other paragraph between them:
  \<open>hasOpenReadMore\<close> says that a subtree holds such an anchor not yet under a paragraph
  of the subtree. Removing one paragraph changes neither the text of another anchor of
  the list nor its closest paragraph, so the order of the loop does not matter.
\<close>

fun hasOpenReadMore :: "node \<Rightarrow> bool" where
  "hasOpenReadMore (Text s) = False"
| "hasOpenReadMore (Element qname lname attrs children) =
     (lname \<noteq> ''p'' \<and>
      ((lname = ''a'' \<and> isReadMoreText (concat (map textContent children))) \<or>
       (\<exists>c \<in> set children. hasOpenReadMore c)))"

fun isReadMoreParagraph :: "node \<Rightarrow> bool" where
  "isReadMoreParagraph (Text s) = False"
| "isReadMoreParagraph (Element qname lname attrs children) =
     (lname = ''p'' \<and> (\<exists>c \<in> set children. hasOpenReadMore c))"

definition cleanDocument :: "htmlDocument \<Rightarrow> htmlDocument" where
  "cleanDocument d =
     (let noScript = \<lparr> doc_head = removeMatching isScriptOrStyle (doc_head d),
                        doc_body = removeMatching isScriptOrStyle (doc_body d) \<rparr>
      in \<lparr> doc_head = removeMatching isReadMoreParagraph (doc_head noScript),
           doc_body = removeMatching isReadMoreParagraph (doc_body noScript) \<rparr>)"

text \<open>\<open>(doc.body.textContent || "").trim()\<close> after the two removals.\<close>

definition cleanedText :: "platform \<Rightarrow> string \<Rightarrow> string" where
  "cleanedText P html = trim (textContent (doc_body (cleanDocument (parseHtml P html))))"

definition truncateText :: "string \<Rightarrow> nat \<Rightarrow> string" where
  "truncateText text len =
     (if text = ''...'' then []
      else if length text > len then
        (let truncated = substring0 text len;
             lastSpace = lastIndexOf truncated (CHR '' '')
         in (if lastSpace > 0 then substring0 truncated (nat lastSpace) else truncated) @ ''...'')
      else text)"

definition stripHtmlAndTruncate :: "platform \<Rightarrow> string \<Rightarrow> nat \<Rightarrow> string" where
  "stripHtmlAndTruncate P html len =
     (if html = [] then [] else truncateText (cleanedText P html) len)"

section \<open>Image Resolver (newsService.ts, extractInitialData)\<close>

text \<open>
  An item as \<open>parseRssXml\<close> builds it. An absent object or property is \<open>None\<close>
  (\<open>undefined\<close> and \<open>null\<close> are both falsy and are not told apart by the program);
  \<open>thumbnail\<close> is read by the resolver though the parser never sets it.
\<close>

record feedItem =
  item_title :: string
  item_link :: string
  item_pubDate :: string
  guid :: string
  description :: string
  content :: string
  thumbnail :: "string option"
  mediaThumbnail_url :: "string option"
  enclosure_link :: "string option"
  enclosure_type :: "string option"

definition SOURCES_NEEDING_SCRAPING :: "string list" where
  "SOURCES_NEEDING_SCRAPING =
     [''play3'', ''xboxdynasty'', ''playfront'', ''playstation info'', ''pixelcritics'',
      ''gameswelt'', ''jpgames'']"

text \<open>
  The predicate of \<open>images.find\<close>. A missing or empty \<open>width\<close> or \<open>height\<close> is parsed
  as \<open>'0'\<close>; a value that \<open>parseInt\<close> cannot read is \<open>NaN\<close>, and \<open>NaN <= 1\<close> is false.
\<close>

definition atMostOne :: "int option \<Rightarrow> bool" where
  "atMostOne n = (case n of None \<Rightarrow> False | Some v \<Rightarrow> v \<le> 1)"

definition likelyContentImage :: "node \<Rightarrow> bool" where
  "likelyContentImage img =
     (case getAttribute img ''src'' of
        None \<Rightarrow> False
      | Some src \<Rightarrow>
          if src = [] \<or> str_includes src ''cpx.golem.de'' then False
          else
            (let width = parseInt (orDefault (getAttribute img ''width'') ''0'');
                 height = parseInt (orDefault (getAttribute img ''height'') ''0'')
             in if atMostOne width \<or> atMostOne height then False else True))"

definition bestImage :: "platform \<Rightarrow> string \<Rightarrow> node option" where
  "bestImage P html =
     find likelyContentImage (filter (hasLocalName ''img'') (documentElements (parseHtml P html)))"

definition enclosureImage :: "feedItem \<Rightarrow> string option" where
  "enclosureImage item =
     (case (enclosure_link item, enclosure_type item) of
        (Some l, Some t) \<Rightarrow> if l \<noteq> [] \<and> t \<noteq> [] \<and> startsWith t ''image'' then Some l else None
      | _ \<Rightarrow> None)"

text \<open>
  The first part of \<open>extractInitialData\<close>: the variable \<open>imageUrl\<close> after the chain
  enclosure, thumbnail, media thumbnail, embedded HTML; \<open>None\<close> is \<open>undefined\<close>.
\<close>

definition initialImageUrl :: "platform \<Rightarrow> feedItem \<Rightarrow> string option" where
  "initialImageUrl P item =
     (if enclosureImage item \<noteq> None then enclosureImage item
      else if truthy (thumbnail item) then thumbnail item
      else if truthy (mediaThumbnail_url item) then mediaThumbnail_url item
      else
        (let html = (if content item \<noteq> [] then content item else description item)
         in if html = [] then None
            else case bestImage P html of
              None \<Rightarrow> None
            | Some img \<Rightarrow>
                (let src = orElse (getAttribute img ''data-src'')
                             (orElse (getAttribute img ''data-lazy-src'') (getAttribute img ''src''))
                 in if truthy src then src else None)))"

text \<open>
  \<open>url.replace(/\/uploads\/[^\/]+\//, '/uploads/original/')\<close>: the leftmost
  \<open>/uploads/\<close> that is followed by a non-empty segment and a slash.
\<close>

fun replaceUploadsSegment :: "string \<Rightarrow> string" where
  "replaceUploadsSegment [] = []"
| "replaceUploadsSegment (c # cs) =
     (let rest = drop 9 (c # cs);
          segment = takeWhile (\<lambda>x. x \<noteq> CHR ''/'') rest;
          behind = dropWhile (\<lambda>x. x \<noteq> CHR ''/'') rest
      in if startsWith (c # cs) ''/uploads/'' \<and> segment \<noteq> [] \<and> behind \<noteq> []
         then ''/uploads/original/'' @ tl behind
         else c # replaceUploadsSegment cs)"

text \<open>
  \<open>url.replace(/\/(\d{2,4})\//, '/800/')\<close>: the leftmost slash followed by exactly two
  to four digits and a slash.
\<close>

fun replaceSizeSegment :: "string \<Rightarrow> string" where
  "replaceSizeSegment [] = []"
| "replaceSizeSegment (c # cs) =
     (let digits = takeWhile isDigit cs;
          behind = dropWhile isDigit cs
      in if c = CHR ''/'' \<and> 2 \<le> length digits \<and> length digits \<le> 4 \<and> startsWith behind ''/''
         then ''/800/'' @ tl behind
         else c # replaceSizeSegment cs)"

text \<open>
  \<open>url.replace(/-\d+x\d+(?=\.(jpg|jpeg|png|gif|webp)$)/i, '')\<close>: a suffix
  \<open>-WIDTHxHEIGHT\<close> directly before the file extension that ends the string.
\<close>

definition imageExtensions :: "string list" where
  "imageExtensions = [''.jpg'', ''.jpeg'', ''.png'', ''.gif'', ''.webp'']"

fun stripSizeSuffix :: "string \<Rightarrow> string" where
  "stripSizeSuffix [] = []"
| "stripSizeSuffix (c # cs) =
     (let w = takeWhile isDigit cs;
          afterW = dropWhile isDigit cs;
          h = takeWhile isDigit (drop 1 afterW);
          afterH = dropWhile isDigit (drop 1 afterW)
      in if c = CHR ''-'' \<and> w \<noteq> [] \<and> toLowerCase (take 1 afterW) = ''x'' \<and> h \<noteq> [] \<and>
            toLowerCase afterH \<in> set imageExtensions
         then afterH
         else c # stripSizeSuffix cs)"

text \<open>The chain of rewrites by host and source name.\<close>

definition rewriteForHost :: "string \<Rightarrow> string \<Rightarrow> string \<Rightarrow> string" where
  "rewriteForHost host sourceName processedUrl =
     (if str_includes host ''gamespot.com'' then replaceUploadsSegment processedUrl
      else if str_includes host ''pcgames.de'' \<and> \<not> str_includes host ''pcgameshardware.de''
        then processedUrl
      else if str_includes host ''pcgameshardware.de'' then processedUrl
      else if str_includes host ''cgames.de'' \<or> str_includes sourceName ''GameStar'' \<or>
              str_includes sourceName ''GamePro''
        then replaceSizeSegment processedUrl
      else processedUrl)"

definition rewriteForSource :: "string \<Rightarrow> string \<Rightarrow> string" where
  "rewriteForSource sourceName processedUrl =
     (if str_includes sourceName ''GamesWirtschaft'' then stripSizeSuffix processedUrl
      else processedUrl)"

definition placeholderUrl :: "string \<Rightarrow> string" where
  "placeholderUrl sourceName =
     ''https://placehold.co/600x400/374151/d1d5db?text='' @
       encodeURIComponent (substring0 sourceName 30)"

text \<open>
  \<open>extractInitialData\<close>: the pair \<open>(imageUrl, needsScraping)\<close>. A URL that cannot be
  resolved (\<open>new URL\<close> throws) falls through to the placeholder.
\<close>

definition extractInitialData :: "platform \<Rightarrow> feedItem \<Rightarrow> string \<Rightarrow> string \<times> bool" where
  "extractInitialData P item sourceName =
     (let imageUrl = initialImageUrl P item;
          sourceNameLower = toLowerCase sourceName;
          needsScraping = (imageUrl = None \<and>
            list_ex (\<lambda>s. str_includes sourceNameLower s) SOURCES_NEEDING_SCRAPING);
          placeholder = (placeholderUrl sourceName, needsScraping)
      in case imageUrl of
           None \<Rightarrow> placeholder
         | Some u \<Rightarrow>
             (case resolveUrl P u (item_link item) of
                None \<Rightarrow> placeholder
              | Some processedUrl \<Rightarrow>
                  (rewriteForSource sourceName
                     (rewriteForHost (hostname P processedUrl) sourceName processedUrl),
                   False)))"

section \<open>Feed Parser (newsService.ts, parseRssXml)\<close>

text \<open>
  The errors the pipeline throws: \<open>parseRssXml\<close> on a document with a parser error,
  \<open>toISOString\<close> on an invalid date (\<open>RangeError\<close>), and \<open>fetchArticlesFromFeeds\<close>
  when no source could be fetched.
\<close>

datatype error =
  XmlParseError string
| InvalidTimeValue string
| CouldNotFetchFromAnySource

text \<open>The elements a query on the document sees: the document element and its descendants.\<close>

definition allElements :: "node \<Rightarrow> node list" where
  "allElements root = root # descendants root"

text \<open>The pairs of an element and one of its children, in the document order of the child.\<close>

fun childPairs :: "node \<Rightarrow> (node \<times> node) list" where
  "childPairs (Text s) = []"
| "childPairs (Element qname lname attrs children) =
     concat (map (\<lambda>c. (Element qname lname attrs children, c) # childPairs c) children)"

text \<open>
  \<open>getQueryText(context, selector)\<close> on an element and, for the feed title, on the
  document: \<open>title\<close> for Atom, \<open>channel > title\<close> for RSS. \<open>getHtmlContent\<close> reads
  the same way.
\<close>

definition getQueryText :: "node \<Rightarrow> (node \<Rightarrow> bool) \<Rightarrow> string" where
  "getQueryText ctx sel =
     (case querySelector ctx sel of None \<Rightarrow> [] | Some el \<Rightarrow> trim (textContent el))"

definition getHtmlContent :: "node \<Rightarrow> (node \<Rightarrow> bool) \<Rightarrow> string" where
  "getHtmlContent n sel =
     (case querySelector n sel of None \<Rightarrow> [] | Some el \<Rightarrow> trim (textContent el))"

definition feedTitle :: "bool \<Rightarrow> node \<Rightarrow> string" where
  "feedTitle isAtom doc =
     (let found =
        (if isAtom then firstOf (filter (hasLocalName ''title'') (allElements doc))
         else firstOf (map snd (filter (\<lambda>(p, c). hasLocalName ''channel'' p \<and> hasLocalName ''title'' c)
                (childPairs doc))))
      in case found of None \<Rightarrow> [] | Some el \<Rightarrow> trim (textContent el))"

record parsedFeed =
  feed_title :: string
  feed_url :: string
  items :: "feedItem list"

text \<open>The three required fields of an entry or item, as the loop body reads them.\<close>

definition itemLink :: "bool \<Rightarrow> node \<Rightarrow> string option" where
  "itemLink isAtom n =
     (if isAtom then
        (let links = querySelectorAll n (hasLocalName ''link'');
             linkNode = (case find (\<lambda>l. getAttribute l ''rel'' = Some ''alternate'') links of
                           Some l \<Rightarrow> Some l
                         | None \<Rightarrow> firstOf links)
         in case linkNode of None \<Rightarrow> None | Some l \<Rightarrow> getAttribute l ''href'')
      else Some (getQueryText n (hasLocalName ''link'')))"

definition itemTitle :: "node \<Rightarrow> string" where
  "itemTitle n = getQueryText n (hasLocalName ''title'')"

definition itemPubDate :: "bool \<Rightarrow> node \<Rightarrow> string" where
  "itemPubDate isAtom n =
     (let first = getQueryText n (hasLocalName (if isAtom then ''published'' else ''pubDate''))
      in if first \<noteq> [] then first else getQueryText n (hasLocalName ''updated''))"

text \<open>
  The selectors \<open>media\:thumbnail, thumbnail[url]\<close> and \<open>enclosure[url]\<close>; an escaped
  colon belongs to the local name that the type selector compares.
\<close>

definition isMediaThumbnail :: "node \<Rightarrow> bool" where
  "isMediaThumbnail n =
     (hasLocalName ''media:thumbnail'' n \<or>
      (hasLocalName ''thumbnail'' n \<and> getAttribute n ''url'' \<noteq> None))"

definition isEnclosure :: "node \<Rightarrow> bool" where
  "isEnclosure n = (hasLocalName ''enclosure'' n \<and> getAttribute n ''url'' \<noteq> None)"

definition firstNonEmpty :: "string \<Rightarrow> string \<Rightarrow> string" where
  "firstNonEmpty a b = (if a \<noteq> [] then a else b)"

text \<open>
  The body of \<open>itemNodes.forEach\<close>: \<open>None\<close> is the early \<open>return\<close> of an entry or item
  with a missing essential field, \<open>Some\<close> the item that is pushed.
\<close>

definition parseItem :: "bool \<Rightarrow> node \<Rightarrow> feedItem option" where
  "parseItem isAtom n =
     (let link = itemLink isAtom n;
          title = itemTitle n;
          pubDate = itemPubDate isAtom n
      in case link of
           None \<Rightarrow> None
         | Some l \<Rightarrow>
             if title = [] \<or> l = [] \<or> pubDate = [] then None
             else
               (let description = firstNonEmpty (getHtmlContent n (hasLocalName ''description''))
                                    (getHtmlContent n (hasLocalName ''summary''));
                    contentEncoded = firstNonEmpty (getHtmlContent n (hasLocalName ''content:encoded''))
                                       (getHtmlContent n (hasLocalName ''content''));
                    mediaThumbnail = querySelector n isMediaThumbnail;
                    enclosure = querySelector n isEnclosure
                in Some \<lparr> item_title = title, item_link = l, item_pubDate = pubDate,
                     guid = firstNonEmpty (getQueryText n (hasLocalName ''guid''))
                              (firstNonEmpty (getQueryText n (hasLocalName ''id'')) l),
                     description = description,
                     content = firstNonEmpty contentEncoded description,
                     thumbnail = None,
                     mediaThumbnail_url = Option.bind mediaThumbnail (\<lambda>m. getAttribute m ''url''),
                     enclosure_link = Option.bind enclosure (\<lambda>e. getAttribute e ''url''),
                     enclosure_type = Option.bind enclosure (\<lambda>e. getAttribute e ''type'') \<rparr>))"

definition itemNodes :: "node \<Rightarrow> node list" where
  "itemNodes doc =
     filter (hasLocalName (if nodeName doc = ''feed'' then ''entry'' else ''item'')) (allElements doc)"

definition parseRssXml :: "platform \<Rightarrow> string \<Rightarrow> string \<Rightarrow> error + parsedFeed" where
  "parseRssXml P xmlString feedUrl =
     (let doc = parseXml P xmlString
      in if list_ex (hasLocalName ''parsererror'') (allElements doc)
         then Inl (XmlParseError feedUrl)
         else
           (let isAtom = (nodeName doc = ''feed'')
            in Inr \<lparr> feed_title = feedTitle isAtom doc, feed_url = feedUrl,
                     items = List.map_filter (parseItem isAtom) (itemNodes doc) \<rparr>))"

section \<open>Aggregation (newsService.ts, fetchArticlesFromFeeds)\<close>

definition feedProxies :: "string \<Rightarrow> string list" where
  "feedProxies url =
     [''https://corsproxy.io/?'' @ encodeURIComponent url,
      ''https://api.allorigins.win/raw?url='' @ encodeURIComponent url]"

text \<open>
  The loop over the proxies of one feed. Every failure inside the \<open>try\<close> (a failing
  \<open>fetch\<close>, a failing \<open>text()\<close>, an XML parser error) and every \<open>continue\<close> goes on
  with the next proxy; \<open>None\<close> is the \<open>null\<close> returned when all proxies failed.
\<close>

fun fetchViaProxies :: "platform \<Rightarrow> string \<Rightarrow> string list \<Rightarrow> parsedFeed option" where
  "fetchViaProxies P feedUrl [] = None"
| "fetchViaProxies P feedUrl (proxyUrl # rest) =
     (case fetch P proxyUrl of
        None \<Rightarrow> fetchViaProxies P feedUrl rest
      | Some (Response ok text) \<Rightarrow>
          if \<not> ok then fetchViaProxies P feedUrl rest
          else case text of
            None \<Rightarrow> fetchViaProxies P feedUrl rest
          | Some xmlString \<Rightarrow>
              if xmlString = [] \<or> \<not> startsWith (trim xmlString) ''<''
              then fetchViaProxies P feedUrl rest
              else case parseRssXml P xmlString feedUrl of
                Inl e \<Rightarrow> fetchViaProxies P feedUrl rest
              | Inr data \<Rightarrow> Some data)"

text \<open>One promise of \<open>fetchPromises\<close>: it never rejects.\<close>

definition fetchFeed :: "platform \<Rightarrow> string \<times> language \<Rightarrow> (parsedFeed \<times> language) option" where
  "fetchFeed P feed =
     (case fetchViaProxies P (fst feed) (feedProxies (fst feed)) of
        None \<Rightarrow> None
      | Some data \<Rightarrow> Some (data, snd feed))"

text \<open>
  The article of one item. \<open>new Date(item.pubDate).toISOString()\<close> throws on an invalid
  date, and nothing in \<open>fetchArticlesFromFeeds\<close> catches it. The guard
  \<open>if (!item.title || !item.link || !item.pubDate) return\<close> gives no article.
\<close>

definition articleOfItem ::
  "platform \<Rightarrow> string \<Rightarrow> language \<Rightarrow> feedItem \<Rightarrow> error + article list" where
  "articleOfItem P sourceName lang item =
     (if item_title item = [] \<or> item_link item = [] \<or> item_pubDate item = [] then Inr []
      else
        (let image = extractInitialData P item sourceName
         in case toISOString P (item_pubDate item) of
              None \<Rightarrow> Inl (InvalidTimeValue (item_pubDate item))
            | Some isoString \<Rightarrow>
                Inr [\<lparr> id' = firstNonEmpty (guid item) (item_link item),
                       title = trim (item_title item),
                       source = sourceName,
                       publicationDate = isoString,
                       summary = stripHtmlAndTruncate P
                                   (firstNonEmpty (description item) (content item)) 150,
                       link = item_link item,
                       imageUrl = fst image,
                       needsScraping = Some (snd image),
                       language = lang \<rparr>]))"

text \<open>A \<open>forEach\<close> whose body may throw: the first error ends the loop.\<close>

fun collect :: "('a \<Rightarrow> error + 'b list) \<Rightarrow> 'a list \<Rightarrow> error + 'b list" where
  "collect f [] = Inr []"
| "collect f (x # xs) =
     (case f x of
        Inl e \<Rightarrow> Inl e
      | Inr ys \<Rightarrow> (case collect f xs of Inl e \<Rightarrow> Inl e | Inr zs \<Rightarrow> Inr (ys @ zs)))"

text \<open>The body of \<open>results.forEach\<close>: the articles of one settled result.\<close>

definition articlesOfResult ::
  "platform \<Rightarrow> (parsedFeed \<times> language) option \<Rightarrow> error + article list" where
  "articlesOfResult P result =
     (case result of
        None \<Rightarrow> Inr []
      | Some (feedData, lang) \<Rightarrow>
          collect (articleOfItem P (cleanSourceName (feed_title feedData) (feed_url feedData)) lang)
            (items feedData))"

definition fetchArticlesFromFeeds ::
  "platform \<Rightarrow> (string \<times> language) list \<Rightarrow> error + article list" where
  "fetchArticlesFromFeeds P feeds =
     (let results = map (fetchFeed P) feeds
      in case collect (articlesOfResult P) results of
           Inl e \<Rightarrow> Inl e
         | Inr allArticles \<Rightarrow>
             if length allArticles = 0 \<and> length results > 0 \<and>
                length (filter (\<lambda>r. r = None) results) = length results
             then Inl CouldNotFetchFromAnySource
             else Inr allArticles)"

section \<open>OG Image Scraper (newsService.ts, getOgImageFromUrl; App.tsx, runImageScraper)\<close>

definition ogProxies :: "string \<Rightarrow> string list" where
  "ogProxies url =
     [''https://api.codetabs.com/v1/proxy?quest='' @ encodeURIComponent url,
      ''https://corsproxy.io/?'' @ encodeURIComponent url,
      ''https://api.allorigins.win/raw?url='' @ encodeURIComponent url]"

definition isMeta :: "string \<Rightarrow> string \<Rightarrow> node \<Rightarrow> bool" where
  "isMeta attr val n = (hasLocalName ''meta'' n \<and> getAttribute n attr = Some val)"

text \<open>The first of \<open>og:image\<close>, \<open>og:image:url\<close> and \<open>twitter:image\<close> that the page has.\<close>

definition ogImageMeta :: "htmlDocument \<Rightarrow> node option" where
  "ogImageMeta doc =
     (case find (isMeta ''property'' ''og:image'') (documentElements doc) of
        Some m \<Rightarrow> Some m
      | None \<Rightarrow>
          (case find (isMeta ''property'' ''og:image:url'') (documentElements doc) of
             Some m \<Rightarrow> Some m
           | None \<Rightarrow> find (isMeta ''name'' ''twitter:image'') (documentElements doc)))"

fun scrapeViaProxies :: "platform \<Rightarrow> string \<Rightarrow> string list \<Rightarrow> string option" where
  "scrapeViaProxies P url [] = None"
| "scrapeViaProxies P url (proxyUrl # rest) =
     (case fetch P proxyUrl of
        None \<Rightarrow> scrapeViaProxies P url rest
      | Some (Response ok text) \<Rightarrow>
          if \<not> ok then scrapeViaProxies P url rest
          else case text of
            None \<Rightarrow> scrapeViaProxies P url rest
          | Some html \<Rightarrow>
              (case Option.bind (ogImageMeta (parseHtml P html)) (\<lambda>m. getAttribute m ''content'') of
                 None \<Rightarrow> scrapeViaProxies P url rest
               | Some metaContent \<Rightarrow>
                   if metaContent = [] then scrapeViaProxies P url rest
                   else case resolveUrl P metaContent url of
                     None \<Rightarrow> scrapeViaProxies P url rest
                   | Some href \<Rightarrow> Some href))"

definition getOgImageFromUrl :: "platform \<Rightarrow> string \<Rightarrow> string option" where
  "getOgImageFromUrl P url = scrapeViaProxies P url (ogProxies url)"

text \<open>
  The state update of one scraped article:
  \<open>prevArticles.map(prev => prev.id === article.id ?
     { ...prev, imageUrl: scrapedUrl || prev.imageUrl, needsScraping: false } : prev)\<close>.
\<close>

definition applyScrapedUrl :: "string option \<Rightarrow> string \<Rightarrow> article list \<Rightarrow> article list" where
  "applyScrapedUrl scrapedUrl articleId prevArticles =
     map (\<lambda>prevArticle.
            if id' prevArticle = articleId
            then prevArticle\<lparr> imageUrl := orDefault scrapedUrl (imageUrl prevArticle),
                               needsScraping := Some False \<rparr>
            else prevArticle)
       prevArticles"

definition articlesToScrape :: "article list \<Rightarrow> article list" where
  "articlesToScrape articlesToCheck =
     filter (\<lambda>a. needsScraping a = Some True \<or> str_includes (imageUrl a) ''placehold.co'')
       articlesToCheck"

text \<open>
  \<open>runImageScraper\<close> on the article list of the component state: one update for each
  article to scrape, here in the order of the list (inside a batch of three the source
  applies them in the order in which the scrapes finish). The progress display and the
  pauses between batches are not part of the model.
\<close>

definition runImageScraper :: "platform \<Rightarrow> article list \<Rightarrow> article list \<Rightarrow> article list" where
  "runImageScraper P articlesToCheck state =
     foldl (\<lambda>prevArticles a. applyScrapedUrl (getOgImageFromUrl P (link a)) (id' a) prevArticles)
       state (articlesToScrape articlesToCheck)"

section \<open>A platform for concrete evaluations\<close>

text \<open>
  The results of the platform on the inputs of the examples below: what the HTML parser
  builds for six strings (any other string is taken as markup-free text), absolute
  \<open>http(s)\<close> URLs that are already in the form of \<open>href\<close> (others are not known to this
  platform), and the host between \<open>://\<close> and the next \<open>/\<close>.
\<close>

definition htmlWithBody :: "node list \<Rightarrow> htmlDocument" where
  "htmlWithBody children =
     \<lparr> doc_head = Element ''HEAD'' ''head'' [] [],
       doc_body = Element ''BODY'' ''body'' [] children \<rparr>"

definition longLine :: string where
  "longLine = replicate 100 (CHR ''a'') @ [CHR 0x0A] @ replicate 100 (CHR ''b'')"

definition ogPage :: string where
  "ogPage = ''<meta property=og:image content=https://c.example/og.jpg>''"

definition exampleParseHtml :: "string \<Rightarrow> htmlDocument" where
  "exampleParseHtml html =
     (if html = ''1 &lt; 2 and 3 &gt; 2'' then htmlWithBody [Text ''1 < 2 and 3 > 2'']
      else if html = ''<img src=track.gif width=1 height=1>'' then
        htmlWithBody
          [Element ''IMG'' ''img'' [(''src'', ''track.gif''), (''width'', ''1''), (''height'', ''1'')] []]
      else if html = ''<p>New trailer</p><img src=https://example.com/pic.jpg>'' then
        htmlWithBody
          [Element ''P'' ''p'' [] [Text ''New trailer''],
           Element ''IMG'' ''img'' [(''src'', ''https://example.com/pic.jpg'')] []]
      else if html = ''<img src=https://example.com/pic.jpg width=640 height=360>'' then
        htmlWithBody
          [Element ''IMG'' ''img''
             [(''src'', ''https://example.com/pic.jpg''), (''width'', ''640''), (''height'', ''360'')] []]
      else if html = ''<p>'' @ replicate 100 (CHR ''a'') @ '' '' @ replicate 100 (CHR ''b'') @ ''</p>''
        then htmlWithBody
          [Element ''P'' ''p'' [] [Text (replicate 100 (CHR ''a'') @ '' '' @ replicate 100 (CHR ''b''))]]
      else if html = ogPage then
        \<lparr> doc_head = Element ''HEAD'' ''head'' []
                       [Element ''META'' ''meta''
                          [(''property'', ''og:image''), (''content'', ''https://c.example/og.jpg'')] []],
          doc_body = Element ''BODY'' ''body'' [] [] \<rparr>
      else htmlWithBody [Text html])"

definition exampleResolveUrl :: "string \<Rightarrow> string \<Rightarrow> string option" where
  "exampleResolveUrl u base =
     (if startsWith u ''https://'' \<or> startsWith u ''http://'' then Some u else None)"

fun afterScheme :: "string \<Rightarrow> string" where
  "afterScheme [] = []"
| "afterScheme (c # cs) = (if startsWith (c # cs) ''://'' then drop 2 cs else afterScheme cs)"

definition exampleHostname :: "string \<Rightarrow> string" where
  "exampleHostname href = takeWhile (\<lambda>c. c \<noteq> CHR ''/'') (afterScheme href)"

definition exampleItem :: "string \<Rightarrow> feedItem" where
  "exampleItem html =
     \<lparr> item_title = ''New trailer'', item_link = ''https://example.com/news/1'',
       item_pubDate = ''Wed, 29 Oct 2025 10:40:00 GMT'', guid = ''https://example.com/news/1'',
       description = html, content = html, thumbnail = None, mediaThumbnail_url = None,
       enclosure_link = None, enclosure_type = None \<rparr>"

definition exampleImageWithoutDimensions :: node where
  "exampleImageWithoutDimensions =
     Element ''IMG'' ''img'' [(''src'', ''https://example.com/pic.jpg'')] []"

text \<open>
  A page with an Open Graph image, and five small feeds: \<open>c\<close> is RSS, \<open>d\<close> is RSS with an
  item dated by \<open>updated\<close> only and an item without a date, \<open>e\<close> is Atom, \<open>f\<close> is RSS
  with a date that is no date. The HTML here needs no quotes; the Atom link does.
\<close>

definition el :: "string \<Rightarrow> node list \<Rightarrow> node" where
  "el name children = Element name name [] children"

definition leaf :: "string \<Rightarrow> string \<Rightarrow> node" where
  "leaf name txt = Element name name [] [Text txt]"

definition dq :: string where
  "dq = [CHR 0x22]"

definition xmlC :: string where
  "xmlC = ''<rss><channel><title>Gamma News</title><item><title>C1</title>'' @
          ''<link>https://c.example/1</link><pubDate>Wed, 29 Oct 2025 10:40:00 GMT</pubDate>'' @
          ''</item></channel></rss>''"

definition docC :: node where
  "docC = el ''rss'' [el ''channel'' [leaf ''title'' ''Gamma News'',
            el ''item'' [leaf ''title'' ''C1'', leaf ''link'' ''https://c.example/1'',
                         leaf ''pubDate'' ''Wed, 29 Oct 2025 10:40:00 GMT'']]]"

definition xmlD :: string where
  "xmlD = ''<rss><channel><title>Delta</title><item><title>D1</title>'' @
          ''<link>https://d.example/1</link><updated>2025-10-28T08:00:00Z</updated></item>'' @
          ''<item><title>D2</title><link>https://d.example/2</link></item></channel></rss>''"

definition itemD1 :: node where
  "itemD1 = el ''item'' [leaf ''title'' ''D1'', leaf ''link'' ''https://d.example/1'',
                         leaf ''updated'' ''2025-10-28T08:00:00Z'']"

definition itemD2 :: node where
  "itemD2 = el ''item'' [leaf ''title'' ''D2'', leaf ''link'' ''https://d.example/2'']"

definition docD :: node where
  "docD = el ''rss'' [el ''channel'' [leaf ''title'' ''Delta'', itemD1, itemD2]]"

definition xmlE :: string where
  "xmlE = ''<feed><title>Epsilon</title><entry><title>E1</title><link href='' @ dq @
          ''https://e.example/1'' @ dq @ ''/><published>2025-10-29T10:40:00Z</published>'' @
          ''</entry></feed>''"

definition docE :: node where
  "docE = el ''feed'' [leaf ''title'' ''Epsilon'',
            el ''entry'' [leaf ''title'' ''E1'',
                          Element ''link'' ''link'' [(''href'', ''https://e.example/1'')] [],
                          leaf ''published'' ''2025-10-29T10:40:00Z'']]"

definition xmlF :: string where
  "xmlF = ''<rss><channel><title>Zeta</title><item><title>F1</title>'' @
          ''<link>https://f.example/1</link><pubDate>TBA</pubDate></item></channel></rss>''"

definition docF :: node where
  "docF = el ''rss'' [el ''channel'' [leaf ''title'' ''Zeta'',
            el ''item'' [leaf ''title'' ''F1'', leaf ''link'' ''https://f.example/1'',
                         leaf ''pubDate'' ''TBA'']]]"

definition exampleParseXml :: "string \<Rightarrow> node" where
  "exampleParseXml s =
     (if s = xmlC then docC
      else if s = xmlD then docD
      else if s = xmlE then docE
      else if s = xmlF then docF
      else el ''parsererror'' [Text s])"

text \<open>
  The network: feed \<open>c\<close> answers through the first proxy, \<open>d\<close> and \<open>f\<close> through the
  second after an HTTP error of the first, \<open>e\<close> through the second after the first threw;
  the page of article \<open>C1\<close> answers through the first scraping proxy; every other
  request is answered with an HTTP error (feeds \<open>a\<close> and \<open>b\<close> among them).
\<close>

definition exampleFetch :: "string \<Rightarrow> response option" where
  "exampleFetch url =
     (if url = ''https://corsproxy.io/?https%3A%2F%2Fc.example%2Frss'' then
        Some (Response True (Some xmlC))
      else if url = ''https://api.allorigins.win/raw?url=https%3A%2F%2Fd.example%2Frss'' then
        Some (Response True (Some xmlD))
      else if url = ''https://corsproxy.io/?https%3A%2F%2Fe.example%2Frss'' then None
      else if url = ''https://api.allorigins.win/raw?url=https%3A%2F%2Fe.example%2Frss'' then
        Some (Response True (Some xmlE))
      else if url = ''https://api.allorigins.win/raw?url=https%3A%2F%2Ff.example%2Frss'' then
        Some (Response True (Some xmlF))
      else if url = ''https://api.codetabs.com/v1/proxy?quest=https%3A%2F%2Fc.example%2F1'' then
        Some (Response True (Some ogPage))
      else Some (Response False None))"

definition exampleToISOString :: "string \<Rightarrow> string option" where
  "exampleToISOString s =
     (if s = ''Wed, 29 Oct 2025 10:40:00 GMT'' then Some ''2025-10-29T10:40:00.000Z''
      else if s = ''2025-10-29T10:40:00Z'' then Some ''2025-10-29T10:40:00.000Z''
      else if s = ''2025-10-28T08:00:00Z'' then Some ''2025-10-28T08:00:00.000Z''
      else None)"

definition examplePlatform :: platform where
  "examplePlatform =
     \<lparr> parseHtml = exampleParseHtml, parseXml = exampleParseXml,
       resolveUrl = exampleResolveUrl, hostname = exampleHostname,
       fetch = exampleFetch, toISOString = exampleToISOString \<rparr>"

definition exampleFeeds :: "(string \<times> language) list" where
  "exampleFeeds =
     [(''https://a.example/rss'', De), (''https://b.example/rss'', De),
      (''https://c.example/rss'', En), (''https://d.example/rss'', En),
      (''https://e.example/rss'', De)]"

text \<open>
  Three articles in the component state: the page of the first has an Open Graph image,
  the page of the second cannot be fetched, the third has its image already.
\<close>

definition scrapeArticle :: "string \<Rightarrow> string \<Rightarrow> string \<Rightarrow> bool \<Rightarrow> article" where
  "scrapeArticle i l img flag =
     \<lparr> id' = i, title = ''New trailer'', source = ''Play3'',
       publicationDate = ''2025-10-29T10:40:00.000Z'', summary = '''', link = l,
       imageUrl = img, needsScraping = Some flag, language = De \<rparr>"

definition exampleScrapeState :: "article list" where
  "exampleScrapeState =
     [scrapeArticle ''c1'' ''https://c.example/1''
        ''https://placehold.co/600x400/374151/d1d5db?text=Play3'' True,
      scrapeArticle ''p2'' ''https://p.example/2''
        ''https://placehold.co/600x400/374151/d1d5db?text=Play3'' True,
      scrapeArticle ''g3'' ''https://g.example/3'' ''https://g.example/3.jpg'' False]"

chapter \<open>Properties\<close>

section \<open>Deduplication, pruning and order of the committed set\<close>

lemma articleMap_keys_distinct_aux:
  "distinct (map fst m) \<Longrightarrow>
   distinct (map fst (foldl (\<lambda>m a. AList.update (id' a) a m) m as))"
  by (induction as arbitrary: m) (simp_all add: distinct_update)

lemma articleMap_map_of_aux:
  "map_of (foldl (\<lambda>m a. AList.update (id' a) a m) m as) =
   map_of m ++ map_of (rev (map (\<lambda>a. (id' a, a)) as))"
proof (induction as arbitrary: m)
  case Nil
  show ?case by simp
next
  case (Cons a as)
  have "map_of (foldl (\<lambda>m a. AList.update (id' a) a m) m (a # as)) =
        map_of (AList.update (id' a) a m) ++ map_of (rev (map (\<lambda>a. (id' a, a)) as))"
    using Cons.IH [of "AList.update (id' a) a m"] by simp
  also have "\<dots> = map_of m ++ map_of (rev (map (\<lambda>a. (id' a, a)) (a # as)))"
    by (simp add: update_conv' map_add_upd_left fun_eq_iff map_add_def split: option.splits)
  finally show ?case .
qed

lemma articleMap_keys_aux:
  "set (map id' as) \<subseteq> set (map fst m) \<Longrightarrow>
   map fst (foldl (\<lambda>m a. AList.update (id' a) a m) m as) = map fst m"
proof (induction as arbitrary: m)
  case Nil
  show ?case by simp
next
  case (Cons a as)
  have k: "map fst (AList.update (id' a) a m) = map fst m"
    using Cons.prems by (simp add: update_keys)
  show ?case
    using Cons.IH [of "AList.update (id' a) a m"] Cons.prems k by simp
qed

lemma articleMap_keys_grow_aux:
  "set (map fst m) \<union> set (map id' as) =
   set (map fst (foldl (\<lambda>m a. AList.update (id' a) a m) m as))"
proof (induction as arbitrary: m)
  case Nil
  show ?case by simp
next
  case (Cons a as)
  have "set (map fst (AList.update (id' a) a m)) = insert (id' a) (set (map fst m))"
    by (auto simp: update_keys)
  then show ?case
    using Cons.IH [of "AList.update (id' a) a m"] by auto
qed

lemma alist_eqI:
  "map fst xs = map fst ys \<Longrightarrow> distinct (map fst xs) \<Longrightarrow> map_of xs = map_of ys \<Longrightarrow> xs = ys"
proof (induction xs arbitrary: ys)
  case Nil
  then show ?case by simp
next
  case (Cons x xs)
  then obtain y ys' where ys: "ys = y # ys'" by (cases ys) auto
  have fst_eq: "fst x = fst y" and keys: "map fst xs = map fst ys'"
    using Cons.prems(1) ys by auto
  have pointwise: "map_of (x # xs) k = map_of (y # ys') k" for k
    using fun_cong [OF Cons.prems(3), of k] ys by (simp only:)
  have snd_eq: "snd x = snd y"
    using pointwise [of "fst x"] fst_eq by (cases x; cases y) auto
  have notin: "fst x \<notin> set (map fst xs)" and d: "distinct (map fst xs)"
    using Cons.prems(2) by auto
  have "map_of xs k = map_of ys' k" for k
  proof (cases "k = fst x")
    case True
    then have "map_of xs k = None" "map_of ys' k = None"
      using notin keys by (auto simp: map_of_eq_None_iff simp flip: set_map)
    then show ?thesis by simp
  next
    case False
    show ?thesis
      using pointwise [of k] False fst_eq by (cases x; cases y) (auto split: if_splits)
  qed
  then have "map_of xs = map_of ys'" by (rule ext)
  then have "xs = ys'" using Cons.IH keys d by blast
  moreover have "x = y" using fst_eq snd_eq by (simp add: prod_eq_iff)
  ultimately show ?case using ys by simp
qed

lemma articleMap_append_self: "articleMap (A @ A) = articleMap A"
proof -
  let ?step = "\<lambda>m a. AList.update (id' a) a m"
  let ?m = "foldl ?step [] A"
  have sub: "set (map id' A) \<subseteq> set (map fst ?m)"
    using articleMap_keys_grow_aux [of "[]" A] by auto
  have keys: "map fst (foldl ?step ?m A) = map fst ?m"
    by (rule articleMap_keys_aux [OF sub])
  have d: "distinct (map fst (foldl ?step ?m A))"
    by (rule articleMap_keys_distinct_aux) (rule articleMap_keys_distinct_aux, simp)
  have "map_of (foldl ?step ?m A) = map_of ?m ++ map_of (rev (map (\<lambda>a. (id' a, a)) A))"
    by (rule articleMap_map_of_aux)
  also have "\<dots> = map_of ?m"
    by (simp add: articleMap_map_of_aux [of "[]" A] map_add_def fun_eq_iff split: option.splits)
  finally have "foldl ?step ?m A = ?m"
    using keys d by (intro alist_eqI) auto
  then show ?thesis by (simp add: articleMap_def)
qed


lemma update_fresh_key: "k \<notin> fst ` set al \<Longrightarrow> AList.update k v al = al @ [(k, v)]"
  by (induction al) auto

lemma articleMap_distinct_ids:
  "distinct (map id' xs) \<Longrightarrow> articleMap xs = map (\<lambda>a. (id' a, a)) xs"
proof (induction xs rule: rev_induct)
  case Nil
  show ?case by (simp add: articleMap_def)
next
  case (snoc x xs)
  have "articleMap (xs @ [x]) = AList.update (id' x) x (articleMap xs)"
    by (simp add: articleMap_def)
  also have "\<dots> = AList.update (id' x) x (map (\<lambda>a. (id' a, a)) xs)"
    using snoc by simp
  also have "\<dots> = map (\<lambda>a. (id' a, a)) xs @ [(id' x, x)]"
    using snoc.prems by (intro update_fresh_key) (auto simp: image_iff)
  finally show ?case by simp
qed

lemma deduplicatedArticles_distinct_ids:
  "distinct (map id' xs) \<Longrightarrow> deduplicatedArticles xs = xs"
  by (simp add: deduplicatedArticles_def articleMap_distinct_ids comp_def)

lemma articleMap_keys: "map fst (articleMap A) = map id' (deduplicatedArticles A)"
proof -
  have "\<forall>p \<in> set (foldl (\<lambda>m a. AList.update (id' a) a m) m as). fst p = id' (snd p)"
    if "\<forall>p \<in> set m. fst p = id' (snd p)" for m as
    using that
  proof (induction as arbitrary: m)
    case Nil
    then show ?case by simp
  next
    case (Cons a as)
    have "\<forall>p \<in> set (AList.update (id' a) a m). fst p = id' (snd p)"
      using Cons.prems by (induction m) auto
    then show ?case using Cons.IH by simp
  qed
  from this [of "[]" A] have "\<forall>p \<in> set (articleMap A). fst p = id' (snd p)"
    by (simp add: articleMap_def)
  then show ?thesis
    by (simp add: deduplicatedArticles_def)
qed

lemma distinct_ids_deduplicatedArticles: "distinct (map id' (deduplicatedArticles A))"
  using articleMap_keys_distinct_aux [of "[]" A]
  by (simp add: articleMap_keys [symmetric] articleMap_def)

lemma last_wins_map_of:
  "map_of (rev (map (\<lambda>a. (id' a, a)) A)) k = Some a \<longleftrightarrow>
   (filter (\<lambda>b. id' b = k) A \<noteq> [] \<and> last (filter (\<lambda>b. id' b = k) A) = a)"
  by (induction A rule: rev_induct) auto

lemma set_deduplicatedArticles:
  "a \<in> set (deduplicatedArticles A) \<longleftrightarrow>
   (a \<in> set A \<and> last (filter (\<lambda>b. id' b = id' a) A) = a)"
proof -
  have d: "distinct (map fst (articleMap A))"
    using articleMap_keys_distinct_aux [of "[]" A] by (simp add: articleMap_def)
  have m: "map_of (articleMap A) = map_of (rev (map (\<lambda>a. (id' a, a)) A))"
    using articleMap_map_of_aux [of "[]" A] by (simp add: articleMap_def)
  have "a \<in> set (deduplicatedArticles A) \<longleftrightarrow> a \<in> ran (map_of (articleMap A))"
    using ran_distinct [OF d] by (simp add: deduplicatedArticles_def)
  also have "\<dots> \<longleftrightarrow> (\<exists>k. filter (\<lambda>b. id' b = k) A \<noteq> [] \<and> last (filter (\<lambda>b. id' b = k) A) = a)"
    by (simp add: ran_def m last_wins_map_of)
  also have "\<dots> \<longleftrightarrow> (a \<in> set A \<and> last (filter (\<lambda>b. id' b = id' a) A) = a)"
  proof
    assume "\<exists>k. filter (\<lambda>b. id' b = k) A \<noteq> [] \<and> last (filter (\<lambda>b. id' b = k) A) = a"
    then obtain k where ne: "filter (\<lambda>b. id' b = k) A \<noteq> []"
      and l: "last (filter (\<lambda>b. id' b = k) A) = a" by blast
    from last_in_set [OF ne] l have "a \<in> set (filter (\<lambda>b. id' b = k) A)" by simp
    then have "a \<in> set A" "id' a = k" by auto
    with l show "a \<in> set A \<and> last (filter (\<lambda>b. id' b = id' a) A) = a" by simp
  next
    assume r: "a \<in> set A \<and> last (filter (\<lambda>b. id' b = id' a) A) = a"
    then have "filter (\<lambda>b. id' b = id' a) A \<noteq> []"
      by (auto simp: filter_empty_conv)
    with r show "\<exists>k. filter (\<lambda>b. id' b = k) A \<noteq> [] \<and> last (filter (\<lambda>b. id' b = k) A) = a"
      by blast
  qed
  finally show ?thesis .
qed

lemma set_finalArticles:
  "a \<in> set (finalArticles getTime now A) \<longleftrightarrow>
   (a \<in> set (deduplicatedArticles A) \<and> notOlderThan getTime (now - sevenDays) a)"
  by (auto simp: finalArticles_def)

lemma distinct_ids_finalArticles: "distinct (map id' (finalArticles getTime now A))"
proof -
  have "distinct (map id' (filter (notOlderThan getTime (now - sevenDays)) (deduplicatedArticles A)))"
    by (rule distinct_map_filter) (rule distinct_ids_deduplicatedArticles)
  then have "distinct (filter (notOlderThan getTime (now - sevenDays)) (deduplicatedArticles A))"
    and "inj_on id' (set (filter (notOlderThan getTime (now - sevenDays)) (deduplicatedArticles A)))"
    by (simp_all add: distinct_map)
  then show ?thesis
    by (simp add: finalArticles_def distinct_map)
qed

lemma sorted_finalArticles:
  "sorted_wrt (\<lambda>a b. \<exists>ta tb. timeOf getTime a = Some ta \<and> timeOf getTime b = Some tb \<and> tb \<le> ta)
     (finalArticles getTime now A)"
proof -
  let ?F = "finalArticles getTime now A"
  have "sorted (map (descendingKey getTime) ?F)"
    by (simp add: finalArticles_def)
  then have s: "sorted_wrt (\<lambda>a b. descendingKey getTime a \<le> descendingKey getTime b) ?F"
    by (simp add: sorted_map)
  have t: "\<exists>t. timeOf getTime a = Some t" if "a \<in> set ?F" for a
    using that by (auto simp: set_finalArticles notOlderThan_def timeOf_def split: option.splits)
  show ?thesis
  proof (rule sorted_wrt_mono_rel [OF _ s])
    fix a b
    assume "a \<in> set ?F" "b \<in> set ?F" "descendingKey getTime a \<le> descendingKey getTime b"
    then show "\<exists>ta tb. timeOf getTime a = Some ta \<and> timeOf getTime b = Some tb \<and> tb \<le> ta"
      using t [of a] t [of b] by (auto simp: descendingKey_def timeOf_def)
  qed
qed

lemma finalArticles_idem:
  "finalArticles getTime now (finalArticles getTime now A) = finalArticles getTime now A"
proof -
  let ?P = "notOlderThan getTime (now - sevenDays)"
  let ?k = "descendingKey getTime"
  let ?F = "finalArticles getTime now A"
  have "deduplicatedArticles ?F = ?F"
    by (rule deduplicatedArticles_distinct_ids) (rule distinct_ids_finalArticles)
  moreover have "filter ?P ?F = ?F"
    by (simp add: finalArticles_def filter_sort)
  moreover have "sort_key ?k ?F = ?F"
    by (rule sort_key_id_if_sorted) (simp add: finalArticles_def)
  ultimately show ?thesis
    by (simp add: finalArticles_def [of getTime now ?F])
qed

lemma articles_updateArticlesAndCache:
  "articles (updateArticlesAndCache getTime now A s) = finalArticles getTime now A"
  by (simp add: updateArticlesAndCache_def Let_def)

lemma finalArticles_append_self:
  "finalArticles getTime now (A @ A) = finalArticles getTime now A"
  by (simp add: finalArticles_def deduplicatedArticles_def articleMap_append_self)

lemma finalArticles_example:
  "finalArticles exampleTime exampleNow exampleArticles =
     [exampleArticle ''g2'' ''second'' ''2025-10-29T10:40:00.000Z'',
      exampleArticle ''g1'' ''first, updated'' ''2025-10-28T08:00:00.000Z'']"
  by (simp add: finalArticles_def deduplicatedArticles_def articleMap_def exampleArticles_def
      exampleArticle_def notOlderThan_def descendingKey_def exampleTime_def exampleNow_def
      sevenDays_def)

text \<open>
  C5. Merging an article list with itself, \<open>updateArticlesAndCache\<close> on \<open>A @ A\<close> at a
  fixed current time, commits exactly what merging \<open>A\<close> alone commits: the same state,
  hence the same members and the same size; and merging the committed set with itself
  gives the committed set again.
\<close>

theorem merge_with_itself:
  "updateArticlesAndCache getTime now (A @ A) s = updateArticlesAndCache getTime now A s \<and>
   set (articles (updateArticlesAndCache getTime now (A @ A) s)) =
     set (articles (updateArticlesAndCache getTime now A s)) \<and>
   length (articles (updateArticlesAndCache getTime now (A @ A) s)) =
     length (articles (updateArticlesAndCache getTime now A s)) \<and>
   finalArticles getTime now (finalArticles getTime now A @ finalArticles getTime now A) =
     finalArticles getTime now A"
proof -
  have "updateArticlesAndCache getTime now (A @ A) s = updateArticlesAndCache getTime now A s"
    by (simp add: updateArticlesAndCache_def finalArticles_append_self)
  moreover have "finalArticles getTime now (finalArticles getTime now A @ finalArticles getTime now A) =
     finalArticles getTime now A"
    by (simp add: finalArticles_append_self finalArticles_idem)
  ultimately show ?thesis by simp
qed

theorem merge_with_itself_witness:
  "articles (updateArticlesAndCache exampleTime exampleNow (exampleArticles @ exampleArticles)
     exampleState) =
     [exampleArticle ''g2'' ''second'' ''2025-10-29T10:40:00.000Z'',
      exampleArticle ''g1'' ''first, updated'' ''2025-10-28T08:00:00.000Z'']"
  using merge_with_itself [of exampleTime exampleNow exampleArticles exampleState]
  by (simp add: articles_updateArticlesAndCache finalArticles_example)

text \<open>
  C6. The committed set of \<open>updateArticlesAndCache\<close> holds no article older than seven
  days before the current time (each has a time, and it is at least \<open>now - 7 days\<close>),
  its ids are pairwise distinct, each member is the last article of the input with its id,
  and it is sorted by descending publication time.
\<close>

theorem committed_set_invariants:
  "(\<forall>a \<in> set (articles (updateArticlesAndCache getTime now A s)).
      \<exists>t. timeOf getTime a = Some t \<and> now - 7 * 24 * 60 * 60 * 1000 \<le> t) \<and>
   distinct (map id' (articles (updateArticlesAndCache getTime now A s))) \<and>
   (\<forall>a \<in> set (articles (updateArticlesAndCache getTime now A s)).
      a \<in> set A \<and> last (filter (\<lambda>b. id' b = id' a) A) = a) \<and>
   sorted_wrt (\<lambda>a b. \<exists>ta tb. timeOf getTime a = Some ta \<and> timeOf getTime b = Some tb \<and> tb \<le> ta)
     (articles (updateArticlesAndCache getTime now A s))"
proof -
  let ?F = "finalArticles getTime now A"
  have old: "\<exists>t. timeOf getTime a = Some t \<and> now - 7 * 24 * 60 * 60 * 1000 \<le> t"
    if "a \<in> set ?F" for a
    using that
    by (auto simp: set_finalArticles notOlderThan_def timeOf_def sevenDays_def
        split: option.splits)
  have lastwins: "a \<in> set A \<and> last (filter (\<lambda>b. id' b = id' a) A) = a" if "a \<in> set ?F" for a
    using that by (simp add: set_finalArticles set_deduplicatedArticles)
  show ?thesis
    unfolding articles_updateArticlesAndCache
    using old lastwins distinct_ids_finalArticles [of getTime now A]
      sorted_finalArticles [of getTime now A]
    by blast
qed

theorem committed_set_invariants_witness:
  "articles (updateArticlesAndCache exampleTime exampleNow exampleArticles exampleState) =
     [exampleArticle ''g2'' ''second'' ''2025-10-29T10:40:00.000Z'',
      exampleArticle ''g1'' ''first, updated'' ''2025-10-28T08:00:00.000Z''] \<and>
   timeOf exampleTime (exampleArticle ''g2'' ''second'' ''2025-10-29T10:40:00.000Z'') =
     Some 1761734400000 \<and>
   timeOf exampleTime (exampleArticle ''g1'' ''first, updated'' ''2025-10-28T08:00:00.000Z'') =
     Some 1761638400000 \<and>
   exampleNow - 7 * 24 * 60 * 60 * 1000 \<le> 1761638400000 \<and>
   last (filter (\<lambda>b. id' b = ''g1'') exampleArticles) =
     exampleArticle ''g1'' ''first, updated'' ''2025-10-28T08:00:00.000Z''"
  using committed_set_invariants [of exampleTime exampleNow exampleArticles exampleState]
  by (simp add: articles_updateArticlesAndCache finalArticles_example)
     (simp add: timeOf_def exampleTime_def exampleArticle_def exampleNow_def exampleArticles_def)

section \<open>Source names\<close>

lemma lookupByUrl_gamestar:
  "str_includes feedUrl ''gamestar.de'' \<Longrightarrow> \<not> str_includes feedUrl ''play3.de'' \<Longrightarrow>
   lookupByUrl URL_TO_NAME_MAP feedUrl = Some ''GameStar''"
  by (simp add: URL_TO_NAME_MAP_def)

text \<open>
  C2, as the code has it. \<open>cleanSourceName\<close> is a function of the title and the feed URL
  alone: equal arguments give equal names. The empty title is answered first, with
  \<open>Unknown Source\<close>, whatever the URL; for a non-empty title the table is searched in the
  order of its keys and its first hit is the name, before any cleaning of the title, so a
  feed URL that contains \<open>gamestar.de\<close> and not the earlier key \<open>play3.de\<close> yields
  exactly \<open>GameStar\<close>, whatever the title.
\<close>

theorem cleanSourceName_gamestar:
  assumes "name \<noteq> []"
    and "str_includes feedUrl ''gamestar.de''"
    and "\<not> str_includes feedUrl ''play3.de''"
  shows "cleanSourceName name feedUrl = ''GameStar'' \<and>
         cleanSourceName [] feedUrl = ''Unknown Source'' \<and>
         (\<forall>title url. title = name \<and> url = feedUrl \<longrightarrow>
            cleanSourceName title url = cleanSourceName name feedUrl) \<and>
         (\<forall>title url canonical.
            title \<noteq> [] \<and> lookupByUrl URL_TO_NAME_MAP url = Some canonical \<longrightarrow>
            cleanSourceName title url = canonical)"
  using assms by (simp add: cleanSourceName_def lookupByUrl_gamestar)

theorem cleanSourceName_gamestar_witness:
  "cleanSourceName ''GameStar - News'' ''https://www.gamestar.de/rss/gamestar.rss'' =
     ''GameStar'' \<and>
   cleanSourceName [] ''https://www.gamestar.de/rss/gamestar.rss'' = ''Unknown Source''"
proof -
  have "''GameStar - News'' \<noteq> []"
    by simp
  moreover have "str_includes ''https://www.gamestar.de/rss/gamestar.rss'' ''gamestar.de''"
    by simp
  moreover have "\<not> str_includes ''https://www.gamestar.de/rss/gamestar.rss'' ''play3.de''"
    by simp
  ultimately show ?thesis
    using cleanSourceName_gamestar
      [of "''GameStar - News''" "''https://www.gamestar.de/rss/gamestar.rss''"]
    by blast
qed

text \<open>
  The claim as stated fails at the empty title, and at a URL that also contains the
  earlier key \<open>play3.de\<close>.
\<close>

theorem cleanSourceName_gamestar_counterexample:
  "str_includes ''https://www.gamestar.de/rss/gamestar.rss'' ''gamestar.de'' \<and>
   cleanSourceName [] ''https://www.gamestar.de/rss/gamestar.rss'' = ''Unknown Source'' \<and>
   str_includes ''https://play3.de/?from=gamestar.de'' ''gamestar.de'' \<and>
   cleanSourceName ''GameStar'' ''https://play3.de/?from=gamestar.de'' = ''Play3''"
  by (simp add: cleanSourceName_def URL_TO_NAME_MAP_def)

section \<open>Summaries\<close>

lemma lastIndexOf_absent: "c \<notin> set s \<Longrightarrow> lastIndexOf s c = - 1"
  by (simp add: lastIndexOf_def)

lemma takeWhile_short: "(\<exists>x \<in> set xs. \<not> P x) \<Longrightarrow> length (takeWhile P xs) < length xs"
  by (induction xs) auto

lemma lastIndexOf_present:
  assumes "c \<in> set s"
  shows "\<exists>k < length s. lastIndexOf s c = int k \<and> s ! k = c \<and>
           (\<forall>j. k < j \<and> j < length s \<longrightarrow> s ! j \<noteq> c)"
proof -
  let ?n = "length (takeWhile (\<lambda>x. x \<noteq> c) (rev s))"
  have n: "?n < length s"
    using assms takeWhile_short [of "rev s" "\<lambda>x. x \<noteq> c"] by auto
  let ?k = "length s - Suc ?n"
  have k: "?k < length s" using n by simp
  have "\<not> (rev s ! ?n \<noteq> c)"
    using nth_length_takeWhile [of "\<lambda>x. x \<noteq> c" "rev s"] n by simp
  then have at: "s ! ?k = c"
    using n by (simp add: rev_nth)
  have later: "s ! j \<noteq> c" if "?k < j" "j < length s" for j
  proof -
    let ?i = "length s - Suc j"
    have i: "?i < ?n" using that n by linarith
    have "rev s ! ?i \<noteq> c"
      using takeWhile_nth [OF i] nth_mem [of ?i "takeWhile (\<lambda>x. x \<noteq> c) (rev s)"] i
        set_takeWhileD [of "rev s ! ?i" "\<lambda>x. x \<noteq> c" "rev s"]
      by (metis (mono_tags, lifting))
    moreover have "rev s ! ?i = s ! j"
      using that by (simp add: rev_nth)
    ultimately show ?thesis by simp
  qed
  have "lastIndexOf s c = int ?k"
    using assms n by (simp add: lastIndexOf_def)
  with k at later show ?thesis by blast
qed

lemma trim_no_leading_space: "trim s = c # cs \<Longrightarrow> \<not> isWhiteSpace c"
proof -
  assume a: "trim s = c # cs"
  let ?t = "dropWhile isWhiteSpace s"
  have "?t = rev (dropWhile isWhiteSpace (rev ?t)) @ rev (takeWhile isWhiteSpace (rev ?t))"
    by (metis rev_append rev_rev_ident takeWhile_dropWhile_id)
  then have "?t = (c # cs) @ rev (takeWhile isWhiteSpace (rev ?t))"
    using a by (simp add: trim_def)
  then have "?t \<noteq> []" "hd ?t = c"
    by (metis append_Cons list.distinct(1), metis append_Cons list.sel(1))
  then show ?thesis
    using hd_dropWhile [of isWhiteSpace s] by simp
qed

lemma length_truncateText: "length (truncateText text len) \<le> len + 3"
  by (simp add: truncateText_def substring0_def Let_def)

lemma truncateText_at_space:
  assumes long: "length text > len"
    and nows: "\<not> isWhiteSpace (hd text)"
    and sp: "CHR '' '' \<in> set (take len text)"
  shows "\<exists>k. 0 < k \<and> k < len \<and> text ! k = CHR '' '' \<and>
             (\<forall>j. k < j \<and> j < len \<longrightarrow> text ! j \<noteq> CHR '' '') \<and>
             truncateText text len = take k text @ ''...''"
proof -
  let ?tr = "take len text"
  have len: "length ?tr = len" using long by simp
  from lastIndexOf_present [OF sp] obtain k where
    k: "k < length ?tr" and idx: "lastIndexOf ?tr (CHR '' '') = int k"
    and spk: "?tr ! k = CHR '' ''"
    and later: "\<forall>j. k < j \<and> j < length ?tr \<longrightarrow> ?tr ! j \<noteq> CHR '' ''"
    by blast
  have nonempty: "text \<noteq> []" using long by auto
  have "text ! 0 \<noteq> CHR '' ''"
    using nows nonempty by (cases "text") (auto simp: isWhiteSpace_def)
  moreover have atk: "text ! k = CHR '' ''" using spk k by simp
  ultimately have pos: "0 < k" by (cases k) auto
  have not_dots: "text \<noteq> ''...''"
  proof
    assume "text = ''...''"
    then have "CHR '' '' \<in> set ''...''" using sp by (metis in_set_takeD)
    then show False by simp
  qed
  have "truncateText text len = take k ?tr @ ''...''"
    using long not_dots idx pos by (simp add: truncateText_def substring0_def Let_def)
  moreover have "take k ?tr = take k text" using k len by (simp add: min_def)
  moreover have "\<forall>j. k < j \<and> j < len \<longrightarrow> text ! j \<noteq> CHR '' ''"
    using later len by auto
  ultimately show ?thesis using pos k len atk by auto
qed

lemma truncateText_no_space:
  assumes "length text > len" and "CHR '' '' \<notin> set (take len text)" and "text \<noteq> ''...''"
  shows "truncateText text len = take len text @ ''...''"
  using assms by (simp add: truncateText_def substring0_def Let_def lastIndexOf_absent)

lemma truncateText_short:
  assumes "length text \<le> len" and "text \<noteq> ''...''"
  shows "truncateText text len = text"
  using assms by (simp add: truncateText_def)

lemma cleanedText_first: "cleanedText P html \<noteq> [] \<Longrightarrow> \<not> isWhiteSpace (hd (cleanedText P html))"
  unfolding cleanedText_def
  by (metis list.exhaust_sel trim_no_leading_space)

lemma cleanedText_example_entities:
  "cleanedText examplePlatform ''1 &lt; 2 and 3 &gt; 2'' = ''1 < 2 and 3 > 2''"
  by code_simp

lemma cleanedText_example_longLine: "cleanedText examplePlatform longLine = longLine"
  by code_simp

lemma cleanedText_example_paragraph:
  "cleanedText examplePlatform
     (''<p>'' @ replicate 100 (CHR ''a'') @ '' '' @ replicate 100 (CHR ''b'') @ ''</p>'') =
   replicate 100 (CHR ''a'') @ '' '' @ replicate 100 (CHR ''b'')"
  by code_simp

text \<open>
  C4, as the code has it. The summary of \<open>stripHtmlAndTruncate\<close> with length 150 has at
  most 153 code units. With \<open>text\<close> the trimmed text content of the cleaned body: when
  \<open>text\<close> is longer than 150 and one of its first 150 code units is a space (U+0020), the
  summary is \<open>text\<close> up to the last such space, followed by \<open>...\<close>; when none of them is a
  space, it is the first 150 code units followed by \<open>...\<close>; a shorter \<open>text\<close> other than
  \<open>...\<close> is returned as it is. Nothing is said about \<open><\<close> and \<open>>\<close>: characters of
  text nodes are kept.
\<close>

theorem summary_length_and_cut:
  "length (stripHtmlAndTruncate P html 150) \<le> 153 \<and>
   (html \<noteq> [] \<and> length (cleanedText P html) > 150 \<and>
    CHR '' '' \<in> set (take 150 (cleanedText P html)) \<longrightarrow>
      (\<exists>k. 0 < k \<and> k < 150 \<and> cleanedText P html ! k = CHR '' '' \<and>
           (\<forall>j. k < j \<and> j < 150 \<longrightarrow> cleanedText P html ! j \<noteq> CHR '' '') \<and>
           stripHtmlAndTruncate P html 150 = take k (cleanedText P html) @ ''...'')) \<and>
   (html \<noteq> [] \<and> length (cleanedText P html) > 150 \<and>
    CHR '' '' \<notin> set (take 150 (cleanedText P html)) \<longrightarrow>
      stripHtmlAndTruncate P html 150 = take 150 (cleanedText P html) @ ''...'') \<and>
   (html \<noteq> [] \<and> length (cleanedText P html) \<le> 150 \<and> cleanedText P html \<noteq> ''...'' \<longrightarrow>
      stripHtmlAndTruncate P html 150 = cleanedText P html)"
proof -
  let ?t = "cleanedText P html"
  have bound: "length (stripHtmlAndTruncate P html 150) \<le> 153"
    using length_truncateText [of ?t 150] by (simp add: stripHtmlAndTruncate_def)
  have cut: "\<exists>k. 0 < k \<and> k < 150 \<and> ?t ! k = CHR '' '' \<and>
           (\<forall>j. k < j \<and> j < 150 \<longrightarrow> ?t ! j \<noteq> CHR '' '') \<and>
           stripHtmlAndTruncate P html 150 = take k ?t @ ''...''"
    if "html \<noteq> []" "length ?t > 150" "CHR '' '' \<in> set (take 150 ?t)"
  proof -
    have "?t \<noteq> []" using that(2) by auto
    then have "\<not> isWhiteSpace (hd ?t)" by (rule cleanedText_first)
    from truncateText_at_space [OF that(2) this that(3)] that(1)
    show ?thesis by (simp add: stripHtmlAndTruncate_def)
  qed
  have nospace: "stripHtmlAndTruncate P html 150 = take 150 ?t @ ''...''"
    if "html \<noteq> []" "length ?t > 150" "CHR '' '' \<notin> set (take 150 ?t)"
  proof -
    have "?t \<noteq> ''...''" using that(2) by auto
    from truncateText_no_space [OF that(2) that(3) this] that(1)
    show ?thesis by (simp add: stripHtmlAndTruncate_def)
  qed
  have short: "stripHtmlAndTruncate P html 150 = ?t"
    if "html \<noteq> []" "length ?t \<le> 150" "?t \<noteq> ''...''"
    using truncateText_short [OF that(2) that(3)] that(1)
    by (simp add: stripHtmlAndTruncate_def)
  show ?thesis
    using bound cut nospace short by blast
qed

theorem summary_length_and_cut_witness:
  "length (cleanedText examplePlatform
     (''<p>'' @ replicate 100 (CHR ''a'') @ '' '' @ replicate 100 (CHR ''b'') @ ''</p>'')) = 201 \<and>
   stripHtmlAndTruncate examplePlatform
     (''<p>'' @ replicate 100 (CHR ''a'') @ '' '' @ replicate 100 (CHR ''b'') @ ''</p>'') 150 =
     replicate 100 (CHR ''a'') @ ''...'' \<and>
   length (stripHtmlAndTruncate examplePlatform
     (''<p>'' @ replicate 100 (CHR ''a'') @ '' '' @ replicate 100 (CHR ''b'') @ ''</p>'') 150) \<le> 153"
proof -
  let ?html = "''<p>'' @ replicate 100 (CHR ''a'') @ '' '' @ replicate 100 (CHR ''b'') @ ''</p>''"
  let ?t = "replicate 100 (CHR ''a'') @ '' '' @ replicate 100 (CHR ''b'')"
  have t: "cleanedText examplePlatform ?html = ?t"
    by (rule cleanedText_example_paragraph)
  have h1: "?html \<noteq> []" by simp
  have h2: "length ?t > 150" by simp
  have h3: "CHR '' '' \<in> set (take 150 ?t)" by simp
  from summary_length_and_cut [of examplePlatform ?html] h1 h2 h3 t
  obtain k where k: "0 < k" "k < 150" "?t ! k = CHR '' ''"
    and later: "\<forall>j. k < j \<and> j < 150 \<longrightarrow> ?t ! j \<noteq> CHR '' ''"
    and res: "stripHtmlAndTruncate examplePlatform ?html 150 = take k ?t @ ''...''"
    and bound: "length (stripHtmlAndTruncate examplePlatform ?html 150) \<le> 153"
    by auto
  have "k = 100"
  proof (rule ccontr)
    assume "k \<noteq> 100"
    then consider "k < 100" | "100 < k" by linarith
    then show False
    proof cases
      case 1
      then show ?thesis using k(3) by (simp add: nth_append)
    next
      case 2
      then show ?thesis using k(2,3) by (simp add: nth_append nth_Cons')
    qed
  qed
  then have "stripHtmlAndTruncate examplePlatform ?html 150 = replicate 100 (CHR ''a'') @ ''...''"
    using res by simp
  then show ?thesis using t bound by simp
qed

text \<open>
  The claim as stated fails: the summary of \<open>1 &lt; 2 and 3 &gt; 2\<close> holds \<open><\<close> and \<open>>\<close>;
  and a text whose only white space within range is a line feed (at position 100) is cut
  at 150, inside a word.
\<close>

theorem summary_counterexample:
  "CHR ''<'' \<in> set (stripHtmlAndTruncate examplePlatform ''1 &lt; 2 and 3 &gt; 2'' 150) \<and>
   CHR ''>'' \<in> set (stripHtmlAndTruncate examplePlatform ''1 &lt; 2 and 3 &gt; 2'' 150) \<and>
   cleanedText examplePlatform longLine ! 100 = CHR 0x0A \<and>
   stripHtmlAndTruncate examplePlatform longLine 150 =
     replicate 100 (CHR ''a'') @ [CHR 0x0A] @ replicate 49 (CHR ''b'') @ ''...''"
  by code_simp

section \<open>Image resolution\<close>

lemma startsWith_append_long:
  "length p \<le> length a \<Longrightarrow> startsWith (a @ b) p = startsWith a p"
  by (induction a p rule: startsWith.induct) auto

lemma replaceUploadsSegment_here:
  assumes "seg \<noteq> []" and "CHR ''/'' \<notin> set seg"
  shows "replaceUploadsSegment (''/uploads/'' @ seg @ ''/'' @ post) = ''/uploads/original/'' @ post"
proof -
  have tw: "takeWhile (\<lambda>x. x \<noteq> CHR ''/'') (seg @ CHR ''/'' # post) = seg"
    using assms(2) by (induction seg) auto
  have dw: "dropWhile (\<lambda>x. x \<noteq> CHR ''/'') (seg @ CHR ''/'' # post) = CHR ''/'' # post"
    using assms(2) by (induction seg) auto
  show ?thesis
    using assms(1) tw dw by (simp add: Let_def)
qed

lemma replaceUploadsSegment_first:
  assumes "\<not> str_includes (pre @ ''/uploads'') ''/uploads/''"
    and "seg \<noteq> []" and "CHR ''/'' \<notin> set seg"
  shows "replaceUploadsSegment (pre @ ''/uploads/'' @ seg @ ''/'' @ post) =
         pre @ ''/uploads/original/'' @ post"
  using assms(1)
proof (induction pre)
  case Nil
  show ?case using replaceUploadsSegment_here [OF assms(2,3)] by simp
next
  case (Cons c pre)
  have no: "\<not> startsWith ((c # pre) @ ''/uploads'') ''/uploads/''"
    and rest: "\<not> str_includes (pre @ ''/uploads'') ''/uploads/''"
    using Cons.prems by auto
  have "startsWith (((c # pre) @ ''/uploads'') @ ''/'' @ seg @ ''/'' @ post) ''/uploads/'' =
        startsWith ((c # pre) @ ''/uploads'') ''/uploads/''"
    by (rule startsWith_append_long) simp
  then have "\<not> startsWith (c # pre @ ''/uploads/'' @ seg @ ''/'' @ post) ''/uploads/''"
    using no by simp
  then have "replaceUploadsSegment (c # pre @ ''/uploads/'' @ seg @ ''/'' @ post) =
             c # replaceUploadsSegment (pre @ ''/uploads/'' @ seg @ ''/'' @ post)"
    by (simp only: replaceUploadsSegment.simps Let_def if_False simp_thms)
  then show ?case using Cons.IH [OF rest] by simp
qed

lemma likelyContentImage_iff:
  "likelyContentImage img \<longleftrightarrow>
     (\<exists>src. getAttribute img ''src'' = Some src \<and> src \<noteq> [] \<and> \<not> str_includes src ''cpx.golem.de'') \<and>
     (\<forall>w. parseInt (orDefault (getAttribute img ''width'') ''0'') = Some w \<longrightarrow> 1 < w) \<and>
     (\<forall>h. parseInt (orDefault (getAttribute img ''height'') ''0'') = Some h \<longrightarrow> 1 < h)"
  by (auto simp: likelyContentImage_def atMostOne_def Let_def split: option.splits)

lemma parseInt_zero: "parseInt ''0'' = Some 0"
  by code_simp

lemma undeclared_rejected:
  "getAttribute img ''width'' = None \<or> getAttribute img ''height'' = None \<Longrightarrow>
   \<not> likelyContentImage img"
  by (auto simp: likelyContentImage_iff orDefault_def parseInt_zero)

lemma bestImage_None:
  "(\<forall>img \<in> set (filter (hasLocalName ''img'') (documentElements (parseHtml P html))).
      \<not> likelyContentImage img) \<Longrightarrow> bestImage P html = None"
  by (auto simp: bestImage_def find_None_iff)

lemma initialImageUrl_example_pixel:
  "initialImageUrl examplePlatform (exampleItem ''<img src=track.gif width=1 height=1>'') = None"
  by code_simp

text \<open>
  C1, as the code has it. In the scan of the embedded HTML an \<open>img\<close> element passes the
  filter exactly when it has a non-empty \<open>src\<close> without the tracker domain and its
  \<open>width\<close> and its \<open>height\<close>, read by \<open>parseInt\<close> with a missing or empty attribute
  counted as \<open>0\<close>, are each greater than 1 or not a number. So an image that does not
  declare its width or its height is rejected, and a content whose images all lack a
  declared dimension gives no candidate.
\<close>

theorem image_scan_dimensions:
  "(likelyContentImage img \<longleftrightarrow>
      (\<exists>src. getAttribute img ''src'' = Some src \<and> src \<noteq> [] \<and>
             \<not> str_includes src ''cpx.golem.de'') \<and>
      (\<forall>w. parseInt (orDefault (getAttribute img ''width'') ''0'') = Some w \<longrightarrow> 1 < w) \<and>
      (\<forall>h. parseInt (orDefault (getAttribute img ''height'') ''0'') = Some h \<longrightarrow> 1 < h)) \<and>
   (getAttribute img ''width'' = None \<or> getAttribute img ''height'' = None \<longrightarrow>
      \<not> likelyContentImage img) \<and>
   ((\<forall>i \<in> set (filter (hasLocalName ''img'') (documentElements (parseHtml P html))).
       getAttribute i ''width'' = None \<or> getAttribute i ''height'' = None) \<longrightarrow>
      bestImage P html = None)"
proof -
  have "bestImage P html = None"
    if "\<forall>i \<in> set (filter (hasLocalName ''img'') (documentElements (parseHtml P html))).
          getAttribute i ''width'' = None \<or> getAttribute i ''height'' = None"
    using that undeclared_rejected by (intro bestImage_None) blast
  then show ?thesis
    using likelyContentImage_iff [of img] undeclared_rejected [of img] by blast
qed

theorem image_scan_dimensions_witness:
  "getAttribute exampleImageWithoutDimensions ''width'' = None \<and>
   \<not> likelyContentImage exampleImageWithoutDimensions \<and>
   filter (hasLocalName ''img'') (documentElements (parseHtml examplePlatform
      ''<p>New trailer</p><img src=https://example.com/pic.jpg>'')) =
     [exampleImageWithoutDimensions] \<and>
   bestImage examplePlatform ''<p>New trailer</p><img src=https://example.com/pic.jpg>'' = None"
proof -
  have w: "getAttribute exampleImageWithoutDimensions ''width'' = None"
    by (simp add: exampleImageWithoutDimensions_def)
  have imgs: "filter (hasLocalName ''img'') (documentElements (parseHtml examplePlatform
      ''<p>New trailer</p><img src=https://example.com/pic.jpg>'')) =
     [exampleImageWithoutDimensions]"
    by code_simp
  note inst = image_scan_dimensions [of exampleImageWithoutDimensions examplePlatform
      "''<p>New trailer</p><img src=https://example.com/pic.jpg>''"]
  have rejected: "\<not> likelyContentImage exampleImageWithoutDimensions"
    using inst w by blast
  have "\<forall>i \<in> set (filter (hasLocalName ''img'') (documentElements (parseHtml examplePlatform
      ''<p>New trailer</p><img src=https://example.com/pic.jpg>''))).
       getAttribute i ''width'' = None \<or> getAttribute i ''height'' = None"
    unfolding imgs using w by simp
  then have "bestImage examplePlatform
      ''<p>New trailer</p><img src=https://example.com/pic.jpg>'' = None"
    using inst by blast
  then show ?thesis
    using w rejected imgs by simp
qed

text \<open>
  The claim as stated fails: an image with a \<open>src\<close>, no tracker domain and no declared
  dimensions is rejected, and the item that holds it gets the placeholder.
\<close>

theorem image_scan_dimensions_counterexample:
  "getAttribute exampleImageWithoutDimensions ''src'' = Some ''https://example.com/pic.jpg'' \<and>
   \<not> str_includes ''https://example.com/pic.jpg'' ''cpx.golem.de'' \<and>
   getAttribute exampleImageWithoutDimensions ''width'' = None \<and>
   getAttribute exampleImageWithoutDimensions ''height'' = None \<and>
   \<not> likelyContentImage exampleImageWithoutDimensions \<and>
   extractInitialData examplePlatform
     (exampleItem ''<p>New trailer</p><img src=https://example.com/pic.jpg>'') ''GameStar'' =
     (''https://placehold.co/600x400/374151/d1d5db?text=GameStar'', False)"
  by code_simp

text \<open>
  C8. An item for which enclosure, thumbnail, media thumbnail and embedded HTML give no
  image candidate resolves to the placeholder URL that ends in the URL-encoded first 30
  code units of the source name, and \<open>needsScraping\<close> is true exactly when the
  lower-cased source name includes an entry of \<open>SOURCES_NEEDING_SCRAPING\<close>.
\<close>

theorem placeholder_without_candidate:
  assumes "initialImageUrl P item = None"
  shows "extractInitialData P item sourceName =
           (''https://placehold.co/600x400/374151/d1d5db?text='' @
              encodeURIComponent (take 30 sourceName),
            \<exists>s \<in> set SOURCES_NEEDING_SCRAPING. str_includes (toLowerCase sourceName) s)"
  using assms
  by (simp add: extractInitialData_def placeholderUrl_def substring0_def list_ex_iff)

theorem placeholder_without_candidate_witness:
  "extractInitialData examplePlatform (exampleItem ''<img src=track.gif width=1 height=1>'')
     ''Play3'' = (''https://placehold.co/600x400/374151/d1d5db?text=Play3'', True) \<and>
   extractInitialData examplePlatform (exampleItem ''<img src=track.gif width=1 height=1>'')
     ''Polygon'' = (''https://placehold.co/600x400/374151/d1d5db?text=Polygon'', False)"
proof -
  have enc: "encodeURIComponent (take 30 ''Play3'') = ''Play3''"
    "encodeURIComponent (take 30 ''Polygon'') = ''Polygon''"
    by code_simp+
  have yes: "\<exists>s \<in> set SOURCES_NEEDING_SCRAPING. str_includes (toLowerCase ''Play3'') s"
    by code_simp
  have no: "\<not> (\<exists>s \<in> set SOURCES_NEEDING_SCRAPING. str_includes (toLowerCase ''Polygon'') s)"
    by code_simp
  show ?thesis
    using placeholder_without_candidate [OF initialImageUrl_example_pixel, of "''Play3''"]
      placeholder_without_candidate [OF initialImageUrl_example_pixel, of "''Polygon''"]
      enc yes no
    by simp
qed

text \<open>
  C9. When the image URL of an item resolves to a URL whose host name includes
  \<open>gamespot.com\<close>, the rewrite for the host replaces the segment between the first
  \<open>/uploads/\<close> and the next slash by \<open>original\<close> (the segment is not empty), and the
  resolver returns that URL, after the rewrite for the source name, with
  \<open>needsScraping = false\<close>. The witness is the URL of the scenario.
\<close>

theorem gamespot_original_segment:
  assumes "initialImageUrl P item = Some u"
    and "resolveUrl P u (item_link item) = Some (pre @ ''/uploads/'' @ seg @ ''/'' @ post)"
    and "str_includes (hostname P (pre @ ''/uploads/'' @ seg @ ''/'' @ post)) ''gamespot.com''"
    and "\<not> str_includes (pre @ ''/uploads'') ''/uploads/''"
    and "seg \<noteq> []"
    and "CHR ''/'' \<notin> set seg"
  shows "rewriteForHost (hostname P (pre @ ''/uploads/'' @ seg @ ''/'' @ post)) sourceName
           (pre @ ''/uploads/'' @ seg @ ''/'' @ post) = pre @ ''/uploads/original/'' @ post \<and>
         extractInitialData P item sourceName =
           (rewriteForSource sourceName (pre @ ''/uploads/original/'' @ post), False)"
proof -
  let ?href = "pre @ ''/uploads/'' @ seg @ ''/'' @ post"
  have r: "rewriteForHost (hostname P ?href) sourceName ?href = pre @ ''/uploads/original/'' @ post"
    using assms(3) replaceUploadsSegment_first [OF assms(4,5,6), of post]
    by (simp only: rewriteForHost_def if_True)
  have "extractInitialData P item sourceName =
          (rewriteForSource sourceName (rewriteForHost (hostname P ?href) sourceName ?href), False)"
    using assms(1,2) by (simp add: extractInitialData_def Let_def)
  with r show ?thesis by simp
qed

theorem gamespot_original_segment_witness:
  "extractInitialData examplePlatform
     ((exampleItem [])\<lparr> enclosure_link :=
          Some ''https://www.gamespot.com/a/uploads/square_small/123/image.jpg'',
        enclosure_type := Some ''image/jpeg'' \<rparr>) ''GameSpot'' =
   (''https://www.gamespot.com/a/uploads/original/123/image.jpg'', False)"
proof -
  let ?item = "(exampleItem [])\<lparr> enclosure_link :=
          Some ''https://www.gamespot.com/a/uploads/square_small/123/image.jpg'',
        enclosure_type := Some ''image/jpeg'' \<rparr>"
  let ?u = "''https://www.gamespot.com/a/uploads/square_small/123/image.jpg''"
  have h1: "initialImageUrl examplePlatform ?item = Some ?u"
    by code_simp
  have h2: "resolveUrl examplePlatform ?u (item_link ?item) =
              Some (''https://www.gamespot.com/a'' @ ''/uploads/'' @ ''square_small'' @ ''/'' @
                    ''123/image.jpg'')"
    by (simp add: examplePlatform_def exampleResolveUrl_def)
  have h3: "str_includes (hostname examplePlatform
              (''https://www.gamespot.com/a'' @ ''/uploads/'' @ ''square_small'' @ ''/'' @
               ''123/image.jpg'')) ''gamespot.com''"
    by code_simp
  have h4: "\<not> str_includes (''https://www.gamespot.com/a'' @ ''/uploads'') ''/uploads/''"
    by code_simp
  have h5: "''square_small'' \<noteq> []"
    by simp
  have h6: "CHR ''/'' \<notin> set ''square_small''"
    by simp
  have src: "rewriteForSource ''GameSpot'' (''https://www.gamespot.com/a'' @
               ''/uploads/original/'' @ ''123/image.jpg'') =
             ''https://www.gamespot.com/a/uploads/original/123/image.jpg''"
    by code_simp
  show ?thesis
    using gamespot_original_segment [OF h1 h2 h3 h4 h5 h6, of "''GameSpot''"] src
    by simp
qed

section \<open>Feed parsing\<close>

lemma parseItem_Some_iff:
  "(\<exists>it. parseItem isAtom n = Some it) \<longleftrightarrow>
   (itemTitle n \<noteq> [] \<and> truthy (itemLink isAtom n) \<and> itemPubDate isAtom n \<noteq> [])"
  by (auto simp: parseItem_def Let_def truthy_def split: option.splits)

lemma parseItem_fields:
  "parseItem isAtom n = Some it \<Longrightarrow>
   item_title it = itemTitle n \<and> itemLink isAtom n = Some (item_link it) \<and>
   item_pubDate it = itemPubDate isAtom n \<and>
   item_title it \<noteq> [] \<and> item_link it \<noteq> [] \<and> item_pubDate it \<noteq> []"
  by (auto simp: parseItem_def Let_def split: option.splits if_splits)

lemma map_filter_list_all2:
  "list_all2 (\<lambda>x y. f x = Some y) (filter (\<lambda>x. \<exists>y. f x = Some y) xs) (List.map_filter f xs)"
  by (induction xs) (auto simp: List.map_filter_simps split: option.splits)

lemma set_map_filter: "y \<in> set (List.map_filter f xs) \<Longrightarrow> \<exists>x \<in> set xs. f x = Some y"
  by (induction xs) (auto simp: List.map_filter_simps split: option.splits)

lemma itemPubDate_unfold:
  "itemPubDate isAtom n =
     (if getQueryText n (hasLocalName (if isAtom then ''published'' else ''pubDate'')) \<noteq> []
      then getQueryText n (hasLocalName (if isAtom then ''published'' else ''pubDate''))
      else getQueryText n (hasLocalName ''updated''))"
  by (simp add: itemPubDate_def Let_def)

lemma parseRssXml_Inr:
  "parseRssXml P xmlString feedUrl = Inr r \<Longrightarrow>
   items r = List.map_filter (parseItem (nodeName (parseXml P xmlString) = ''feed''))
               (itemNodes (parseXml P xmlString))"
  by (auto simp: parseRssXml_def Let_def split: if_splits)

lemma parseRssXml_example_d:
  "parseRssXml examplePlatform xmlD ''https://d.example/rss'' =
   Inr \<lparr> feed_title = ''Delta'', feed_url = ''https://d.example/rss'',
         items = [\<lparr> item_title = ''D1'', item_link = ''https://d.example/1'',
             item_pubDate = ''2025-10-28T08:00:00Z'',
             guid = ''https://d.example/1'', description = [], content = [],
             thumbnail = None, mediaThumbnail_url = None,
             enclosure_link = None, enclosure_type = None \<rparr>] \<rparr>"
  by code_simp

text \<open>
  C3, as the code has it. When \<open>parseRssXml\<close> returns, its items are, in document order,
  the items built from exactly those entry or item nodes that have a non-empty title, a
  non-empty link and a non-empty publication date; the date is the text of \<open>published\<close>
  for Atom and of \<open>pubDate\<close> for RSS and, in both formats, the text of \<open>updated\<close> when
  that is empty. Every item of the result carries these three fields of its node, none
  of them empty.
\<close>

theorem parseRssXml_required_fields:
  assumes "parseRssXml P xmlString feedUrl = Inr r"
  shows "list_all2
           (\<lambda>n it. parseItem (nodeName (parseXml P xmlString) = ''feed'') n = Some it \<and>
              item_title it = getQueryText n (hasLocalName ''title'') \<and>
              itemLink (nodeName (parseXml P xmlString) = ''feed'') n = Some (item_link it) \<and>
              item_pubDate it =
                firstNonEmpty
                  (getQueryText n (hasLocalName
                     (if nodeName (parseXml P xmlString) = ''feed'' then ''published''
                      else ''pubDate'')))
                  (getQueryText n (hasLocalName ''updated'')))
           (filter
              (\<lambda>n. getQueryText n (hasLocalName ''title'') \<noteq> [] \<and>
                 truthy (itemLink (nodeName (parseXml P xmlString) = ''feed'') n) \<and>
                 firstNonEmpty
                   (getQueryText n (hasLocalName
                      (if nodeName (parseXml P xmlString) = ''feed'' then ''published''
                       else ''pubDate'')))
                   (getQueryText n (hasLocalName ''updated'')) \<noteq> [])
              (itemNodes (parseXml P xmlString)))
           (items r) \<and>
         (\<forall>it \<in> set (items r).
            item_title it \<noteq> [] \<and> item_link it \<noteq> [] \<and> item_pubDate it \<noteq> [])"
proof -
  let ?isAtom = "nodeName (parseXml P xmlString) = ''feed''"
  let ?nodes = "itemNodes (parseXml P xmlString)"
  have date: "itemPubDate ?isAtom n =
      firstNonEmpty (getQueryText n (hasLocalName (if ?isAtom then ''published'' else ''pubDate'')))
        (getQueryText n (hasLocalName ''updated''))" for n
    by (simp add: itemPubDate_def firstNonEmpty_def Let_def)
  have its: "items r = List.map_filter (parseItem ?isAtom) ?nodes"
    using assms by (rule parseRssXml_Inr)
  have sel: "(\<lambda>n. \<exists>it. parseItem ?isAtom n = Some it) =
      (\<lambda>n. getQueryText n (hasLocalName ''title'') \<noteq> [] \<and> truthy (itemLink ?isAtom n) \<and>
         firstNonEmpty (getQueryText n (hasLocalName (if ?isAtom then ''published'' else ''pubDate'')))
           (getQueryText n (hasLocalName ''updated'')) \<noteq> [])"
    by (rule ext) (simp only: parseItem_Some_iff date itemTitle_def)
  have "list_all2 (\<lambda>n it. parseItem ?isAtom n = Some it)
          (filter (\<lambda>n. \<exists>it. parseItem ?isAtom n = Some it) ?nodes) (items r)"
    unfolding its by (rule map_filter_list_all2)
  then have "list_all2
      (\<lambda>n it. parseItem ?isAtom n = Some it \<and>
         item_title it = getQueryText n (hasLocalName ''title'') \<and>
         itemLink ?isAtom n = Some (item_link it) \<and>
         item_pubDate it =
           firstNonEmpty (getQueryText n (hasLocalName (if ?isAtom then ''published'' else ''pubDate'')))
             (getQueryText n (hasLocalName ''updated'')))
      (filter (\<lambda>n. \<exists>it. parseItem ?isAtom n = Some it) ?nodes) (items r)"
  proof (rule list_all2_mono)
    fix n it
    assume "parseItem ?isAtom n = Some it"
    then show "parseItem ?isAtom n = Some it \<and>
         item_title it = getQueryText n (hasLocalName ''title'') \<and>
         itemLink ?isAtom n = Some (item_link it) \<and>
         item_pubDate it =
           firstNonEmpty (getQueryText n (hasLocalName (if ?isAtom then ''published'' else ''pubDate'')))
             (getQueryText n (hasLocalName ''updated''))"
      using parseItem_fields [of ?isAtom n it] date [of n] by (simp add: itemTitle_def)
  qed
  then have first: "list_all2
      (\<lambda>n it. parseItem ?isAtom n = Some it \<and>
         item_title it = getQueryText n (hasLocalName ''title'') \<and>
         itemLink ?isAtom n = Some (item_link it) \<and>
         item_pubDate it =
           firstNonEmpty (getQueryText n (hasLocalName (if ?isAtom then ''published'' else ''pubDate'')))
             (getQueryText n (hasLocalName ''updated'')))
      (filter (\<lambda>n. getQueryText n (hasLocalName ''title'') \<noteq> [] \<and> truthy (itemLink ?isAtom n) \<and>
         firstNonEmpty (getQueryText n (hasLocalName (if ?isAtom then ''published'' else ''pubDate'')))
           (getQueryText n (hasLocalName ''updated'')) \<noteq> []) ?nodes) (items r)"
    by (simp only: sel)
  have second: "\<forall>it \<in> set (items r).
      item_title it \<noteq> [] \<and> item_link it \<noteq> [] \<and> item_pubDate it \<noteq> []"
  proof
    fix it
    assume "it \<in> set (items r)"
    then obtain n where "parseItem ?isAtom n = Some it"
      unfolding its by (blast dest: set_map_filter)
    then show "item_title it \<noteq> [] \<and> item_link it \<noteq> [] \<and> item_pubDate it \<noteq> []"
      using parseItem_fields by blast
  qed
  from first second show ?thesis by (rule conjI)
qed

theorem parseRssXml_required_fields_witness:
  "itemNodes (parseXml examplePlatform xmlD) = [itemD1, itemD2] \<and>
   getQueryText itemD2 (hasLocalName ''pubDate'') = [] \<and>
   getQueryText itemD2 (hasLocalName ''updated'') = [] \<and>
   map item_title (items \<lparr> feed_title = ''Delta'', feed_url = ''https://d.example/rss'',
         items = [\<lparr> item_title = ''D1'', item_link = ''https://d.example/1'',
             item_pubDate = ''2025-10-28T08:00:00Z'',
             guid = ''https://d.example/1'', description = [], content = [],
             thumbnail = None, mediaThumbnail_url = None,
             enclosure_link = None, enclosure_type = None \<rparr>] \<rparr>) = [''D1'']"
proof -
  have nodes: "itemNodes (parseXml examplePlatform xmlD) = [itemD1, itemD2]"
    by code_simp
  have d2: "getQueryText itemD2 (hasLocalName ''pubDate'') = []"
    "getQueryText itemD2 (hasLocalName ''updated'') = []"
    by code_simp+
  from parseRssXml_required_fields [OF parseRssXml_example_d] nodes d2
  show ?thesis by simp
qed

text \<open>
  The claim as stated fails for RSS: the first item of feed \<open>d\<close> has no \<open>pubDate\<close>, only
  \<open>updated\<close>, and is included with the text of \<open>updated\<close> as its date.
\<close>

theorem parseRssXml_required_fields_counterexample:
  "nodeName (parseXml examplePlatform xmlD) = ''rss'' \<and>
   itemNodes (parseXml examplePlatform xmlD) = [itemD1, itemD2] \<and>
   getQueryText itemD1 (hasLocalName ''pubDate'') = [] \<and>
   parseRssXml examplePlatform xmlD ''https://d.example/rss'' =
     Inr \<lparr> feed_title = ''Delta'', feed_url = ''https://d.example/rss'',
           items = [\<lparr> item_title = ''D1'', item_link = ''https://d.example/1'',
               item_pubDate = ''2025-10-28T08:00:00Z'',
               guid = ''https://d.example/1'', description = [], content = [],
               thumbnail = None, mediaThumbnail_url = None,
               enclosure_link = None, enclosure_type = None \<rparr>] \<rparr>"
  by code_simp

section \<open>Aggregation over a feed group\<close>

lemma collect_all_Inr:
  "list_all2 (\<lambda>x ys. f x = Inr ys) xs yss \<Longrightarrow> collect f xs = Inr (concat yss)"
  by (induction xs yss rule: list_all2_induct) auto

lemma articlesOfResult_None: "articlesOfResult P None = Inr []"
  by (simp add: articlesOfResult_def)

lemma fetchArticlesFromFeeds_partial_success:
  assumes "feeds \<noteq> []"
    and "list_all2 (\<lambda>feed as. articlesOfResult P (fetchFeed P feed) = Inr as) feeds ass"
  shows "fetchArticlesFromFeeds P feeds =
           (if \<forall>feed \<in> set feeds. fetchFeed P feed = None then Inl CouldNotFetchFromAnySource
            else Inr (concat ass))"
proof -
  let ?results = "map (fetchFeed P) feeds"
  have "list_all2 (\<lambda>r as. articlesOfResult P r = Inr as) ?results ass"
    using assms(2) by (simp add: list_all2_map1)
  then have col: "collect (articlesOfResult P) ?results = Inr (concat ass)"
    by (rule collect_all_Inr)
  show ?thesis
  proof (cases "\<forall>feed \<in> set feeds. fetchFeed P feed = None")
    case True
    have "\<forall>as \<in> set ass. as = []"
    proof
      fix as assume "as \<in> set ass"
      then obtain i where i: "i < length ass" "ass ! i = as"
        by (auto simp: in_set_conv_nth)
      have len: "length feeds = length ass"
        using assms(2) by (rule list_all2_lengthD)
      have "articlesOfResult P (fetchFeed P (feeds ! i)) = Inr as"
        using list_all2_nthD2 [OF assms(2) i(1)] i(2) by simp
      moreover have "fetchFeed P (feeds ! i) = None"
        using True i(1) len by simp
      ultimately show "as = []" by (simp add: articlesOfResult_None)
    qed
    then have "concat ass = []" by simp
    moreover have "filter (\<lambda>r. r = None) ?results = ?results"
      using True by (simp add: filter_id_conv)
    ultimately show ?thesis
      using True assms(1) col by (simp add: fetchArticlesFromFeeds_def)
  next
    case False
    then obtain r where r: "r \<in> set ?results" "\<not> (r = None)" by auto
    have "length (filter (\<lambda>r. r = None) ?results) < length ?results"
      using r by (rule length_filter_less)
    then show ?thesis
      using False col by (simp add: fetchArticlesFromFeeds_def)
  qed
qed

lemma fetchArticlesFromFeeds_example_group:
  "map (\<lambda>feed. fetchFeed examplePlatform feed = None) exampleFeeds =
     [True, True, False, False, False] \<and>
   (case fetchArticlesFromFeeds examplePlatform exampleFeeds of
      Inl e \<Rightarrow> []
    | Inr allArticles \<Rightarrow> map link allArticles) =
     [''https://c.example/1'', ''https://d.example/1'', ''https://e.example/1'']"
  by code_simp

text \<open>
  C7. The claim does not hold of the code. A feed that was fetched and parsed, but holds
  an item whose date the platform cannot read, makes \<open>toISOString\<close> throw inside
  \<open>results.forEach\<close>; nothing catches it, so \<open>fetchArticlesFromFeeds\<close> fails although
  both feeds of the group succeeded. (\<open>fetchArticlesFromFeeds_partial_success\<close> above is
  what holds when every date can be read.)
\<close>

theorem fetchArticlesFromFeeds_invalid_date:
  "fetchFeed examplePlatform (''https://c.example/rss'', En) \<noteq> None \<and>
   fetchFeed examplePlatform (''https://f.example/rss'', En) \<noteq> None \<and>
   fetchArticlesFromFeeds examplePlatform
     [(''https://c.example/rss'', En), (''https://f.example/rss'', En)] =
     Inl (InvalidTimeValue ''TBA'')"
  by code_simp

section \<open>The image scraper pass\<close>

lemma applyScrapedUrl_length: "length (applyScrapedUrl r i st) = length st"
  by (simp add: applyScrapedUrl_def)

lemma applyScrapedUrl_nth:
  "k < length st \<Longrightarrow>
   applyScrapedUrl r i st ! k =
     (if id' (st ! k) = i
      then (st ! k)\<lparr> imageUrl := orDefault r (imageUrl (st ! k)), needsScraping := Some False \<rparr>
      else st ! k)"
  by (simp add: applyScrapedUrl_def)

lemma scraper_fold:
  "length (foldl (\<lambda>prev a. applyScrapedUrl (f a) (id' a) prev) st as) = length st \<and>
   (\<forall>k < length st.
      id' (foldl (\<lambda>prev a. applyScrapedUrl (f a) (id' a) prev) st as ! k) = id' (st ! k) \<and>
      (id' (st ! k) \<in> id' ` set as \<longrightarrow>
         foldl (\<lambda>prev a. applyScrapedUrl (f a) (id' a) prev) st as ! k =
           (st ! k)\<lparr> imageUrl := imageUrl (foldl (\<lambda>prev a. applyScrapedUrl (f a) (id' a) prev) st as ! k),
                      needsScraping := Some False \<rparr>) \<and>
      (id' (st ! k) \<notin> id' ` set as \<longrightarrow>
         foldl (\<lambda>prev a. applyScrapedUrl (f a) (id' a) prev) st as ! k = st ! k))"
proof (induction as arbitrary: st)
  case Nil
  show ?case by simp
next
  case (Cons a as)
  let ?st1 = "applyScrapedUrl (f a) (id' a) st"
  let ?F = "\<lambda>s. foldl (\<lambda>prev a. applyScrapedUrl (f a) (id' a) prev) s as"
  note IH = Cons.IH [of ?st1]
  have len1: "length ?st1 = length st" by (rule applyScrapedUrl_length)
  have len: "length (?F ?st1) = length st" using IH len1 by simp
  have step: "\<And>k. k < length st \<Longrightarrow>
      id' (?F ?st1 ! k) = id' (st ! k) \<and>
      (id' (st ! k) \<in> id' ` set (a # as) \<longrightarrow>
         ?F ?st1 ! k = (st ! k)\<lparr> imageUrl := imageUrl (?F ?st1 ! k), needsScraping := Some False \<rparr>) \<and>
      (id' (st ! k) \<notin> id' ` set (a # as) \<longrightarrow> ?F ?st1 ! k = st ! k)"
  proof -
    fix k assume k: "k < length st"
    then have k1: "k < length ?st1" using len1 by simp
    have one: "?st1 ! k =
       (if id' (st ! k) = id' a
        then (st ! k)\<lparr> imageUrl := orDefault (f a) (imageUrl (st ! k)), needsScraping := Some False \<rparr>
        else st ! k)"
      using k by (rule applyScrapedUrl_nth)
    then have id1: "id' (?st1 ! k) = id' (st ! k)" by simp
    from IH k1 have ih:
      "id' (?F ?st1 ! k) = id' (?st1 ! k)"
      "id' (?st1 ! k) \<in> id' ` set as \<longrightarrow>
         ?F ?st1 ! k = (?st1 ! k)\<lparr> imageUrl := imageUrl (?F ?st1 ! k), needsScraping := Some False \<rparr>"
      "id' (?st1 ! k) \<notin> id' ` set as \<longrightarrow> ?F ?st1 ! k = ?st1 ! k"
      by blast+
    show "id' (?F ?st1 ! k) = id' (st ! k) \<and>
      (id' (st ! k) \<in> id' ` set (a # as) \<longrightarrow>
         ?F ?st1 ! k = (st ! k)\<lparr> imageUrl := imageUrl (?F ?st1 ! k), needsScraping := Some False \<rparr>) \<and>
      (id' (st ! k) \<notin> id' ` set (a # as) \<longrightarrow> ?F ?st1 ! k = st ! k)"
    proof (cases "id' (st ! k) \<in> id' ` set as")
      case True
      then have "?F ?st1 ! k = (?st1 ! k)\<lparr> imageUrl := imageUrl (?F ?st1 ! k), needsScraping := Some False \<rparr>"
        using ih(2) id1 by simp
      also have "\<dots> = (st ! k)\<lparr> imageUrl := imageUrl (?F ?st1 ! k), needsScraping := Some False \<rparr>"
        using one by simp
      finally show ?thesis using ih(1) id1 True by simp
    next
      case False
      then have same: "?F ?st1 ! k = ?st1 ! k" using ih(3) id1 by simp
      show ?thesis
      proof (cases "id' (st ! k) = id' a")
        case True
        then show ?thesis using same one by simp
      next
        case ne: False
        then show ?thesis using same one False by auto
      qed
    qed
  qed
  show ?case using len step by simp
qed

lemma runImageScraper_example:
  "runImageScraper examplePlatform exampleScrapeState exampleScrapeState =
     [scrapeArticle ''c1'' ''https://c.example/1'' ''https://c.example/og.jpg'' False,
      scrapeArticle ''p2'' ''https://p.example/2''
        ''https://placehold.co/600x400/374151/d1d5db?text=Play3'' False,
      scrapeArticle ''g3'' ''https://g.example/3'' ''https://g.example/3.jpg'' False]"
  by code_simp

text \<open>
  C10. The update for one scraped article \<open>a\<close> keeps the length and the order of the
  state; an article with the id of \<open>a\<close> gets \<open>needsScraping = false\<close> and keeps its
  \<open>imageUrl\<close> when \<open>getOgImageFromUrl\<close> returned \<open>null\<close>, or gets the returned URL,
  every other field unchanged; an article with another id is unchanged. After the whole
  pass every article whose id is among the articles to scrape has
  \<open>needsScraping = false\<close> and differs from before in \<open>imageUrl\<close> and \<open>needsScraping\<close>
  at most, and every other article is unchanged.
\<close>

theorem scraper_clears_flag:
  "length (applyScrapedUrl (getOgImageFromUrl P (link a)) (id' a) st) = length st \<and>
   (\<forall>k < length st.
      (id' (st ! k) = id' a \<and> getOgImageFromUrl P (link a) = None \<longrightarrow>
         applyScrapedUrl (getOgImageFromUrl P (link a)) (id' a) st ! k =
           (st ! k)\<lparr> needsScraping := Some False \<rparr>) \<and>
      (\<forall>url. id' (st ! k) = id' a \<and> getOgImageFromUrl P (link a) = Some url \<and> url \<noteq> [] \<longrightarrow>
         applyScrapedUrl (getOgImageFromUrl P (link a)) (id' a) st ! k =
           (st ! k)\<lparr> imageUrl := url, needsScraping := Some False \<rparr>) \<and>
      (id' (st ! k) \<noteq> id' a \<longrightarrow>
         applyScrapedUrl (getOgImageFromUrl P (link a)) (id' a) st ! k = st ! k)) \<and>
   length (runImageScraper P articlesToCheck st) = length st \<and>
   (\<forall>k < length st.
      (id' (st ! k) \<in> id' ` set (articlesToScrape articlesToCheck) \<longrightarrow>
         needsScraping (runImageScraper P articlesToCheck st ! k) = Some False \<and>
         runImageScraper P articlesToCheck st ! k =
           (st ! k)\<lparr> imageUrl := imageUrl (runImageScraper P articlesToCheck st ! k),
                      needsScraping := Some False \<rparr>) \<and>
      (id' (st ! k) \<notin> id' ` set (articlesToScrape articlesToCheck) \<longrightarrow>
         runImageScraper P articlesToCheck st ! k = st ! k))"
proof -
  let ?r = "getOgImageFromUrl P (link a)"
  have one: "\<forall>k < length st.
      (id' (st ! k) = id' a \<and> ?r = None \<longrightarrow>
         applyScrapedUrl ?r (id' a) st ! k = (st ! k)\<lparr> needsScraping := Some False \<rparr>) \<and>
      (\<forall>url. id' (st ! k) = id' a \<and> ?r = Some url \<and> url \<noteq> [] \<longrightarrow>
         applyScrapedUrl ?r (id' a) st ! k =
           (st ! k)\<lparr> imageUrl := url, needsScraping := Some False \<rparr>) \<and>
      (id' (st ! k) \<noteq> id' a \<longrightarrow> applyScrapedUrl ?r (id' a) st ! k = st ! k)"
    by (auto simp: applyScrapedUrl_nth orDefault_def)
  note pass = scraper_fold [of "\<lambda>a. getOgImageFromUrl P (link a)" st "articlesToScrape articlesToCheck",
      folded runImageScraper_def]
  have all: "\<forall>k < length st.
      (id' (st ! k) \<in> id' ` set (articlesToScrape articlesToCheck) \<longrightarrow>
         needsScraping (runImageScraper P articlesToCheck st ! k) = Some False \<and>
         runImageScraper P articlesToCheck st ! k =
           (st ! k)\<lparr> imageUrl := imageUrl (runImageScraper P articlesToCheck st ! k),
                      needsScraping := Some False \<rparr>) \<and>
      (id' (st ! k) \<notin> id' ` set (articlesToScrape articlesToCheck) \<longrightarrow>
         runImageScraper P articlesToCheck st ! k = st ! k)"
  proof (intro allI impI)
    fix k assume k: "k < length st"
    let ?x = "runImageScraper P articlesToCheck st ! k"
    from pass k have
      upd: "id' (st ! k) \<in> id' ` set (articlesToScrape articlesToCheck) \<longrightarrow>
              ?x = (st ! k)\<lparr> imageUrl := imageUrl ?x, needsScraping := Some False \<rparr>"
      and same: "id' (st ! k) \<notin> id' ` set (articlesToScrape articlesToCheck) \<longrightarrow> ?x = st ! k"
      by blast+
    have "needsScraping ?x = Some False"
      if "id' (st ! k) \<in> id' ` set (articlesToScrape articlesToCheck)"
    proof -
      have "?x = (st ! k)\<lparr> imageUrl := imageUrl ?x, needsScraping := Some False \<rparr>"
        using upd that by blast
      then have "needsScraping ?x =
          needsScraping ((st ! k)\<lparr> imageUrl := imageUrl ?x, needsScraping := Some False \<rparr>)"
        by simp
      then show ?thesis by simp
    qed
    then show "(id' (st ! k) \<in> id' ` set (articlesToScrape articlesToCheck) \<longrightarrow>
         needsScraping ?x = Some False \<and>
         ?x = (st ! k)\<lparr> imageUrl := imageUrl ?x, needsScraping := Some False \<rparr>) \<and>
      (id' (st ! k) \<notin> id' ` set (articlesToScrape articlesToCheck) \<longrightarrow> ?x = st ! k)"
      using upd same by blast
  qed
  have len: "length (runImageScraper P articlesToCheck st) = length st"
    using pass by blast
  show ?thesis
    using applyScrapedUrl_length [of ?r "id' a" st] one len all by blast
qed

theorem scraper_clears_flag_witness:
  "getOgImageFromUrl examplePlatform ''https://c.example/1'' = Some ''https://c.example/og.jpg'' \<and>
   getOgImageFromUrl examplePlatform ''https://p.example/2'' = None \<and>
   runImageScraper examplePlatform exampleScrapeState exampleScrapeState =
     [scrapeArticle ''c1'' ''https://c.example/1'' ''https://c.example/og.jpg'' False,
      scrapeArticle ''p2'' ''https://p.example/2''
        ''https://placehold.co/600x400/374151/d1d5db?text=Play3'' False,
      scrapeArticle ''g3'' ''https://g.example/3'' ''https://g.example/3.jpg'' False] \<and>
   needsScraping (runImageScraper examplePlatform exampleScrapeState exampleScrapeState ! 1) =
     Some False"
proof -
  have og: "getOgImageFromUrl examplePlatform ''https://c.example/1'' =
      Some ''https://c.example/og.jpg''"
    "getOgImageFromUrl examplePlatform ''https://p.example/2'' = None"
    by code_simp+
  have flagged: "id' (exampleScrapeState ! 1) \<in> id' ` set (articlesToScrape exampleScrapeState)"
    by code_simp
  have k: "1 < length exampleScrapeState"
    by (simp add: exampleScrapeState_def)
  from scraper_clears_flag [of examplePlatform "exampleScrapeState ! 1" exampleScrapeState
      exampleScrapeState] flagged k
  have "needsScraping (runImageScraper examplePlatform exampleScrapeState exampleScrapeState ! 1) =
     Some False"
    by blast
  then show ?thesis
    using og runImageScraper_example by simp
qed

end
